theory Spec2Isabelle
  imports Complex_Main
begin

section \<open>Python values\<close>

text \<open>
  The dictionaries of \<open>script.py\<close> hold \<open>None\<close>, booleans, integers, floats and
  strings. Python's unbounded integers are \<open>int\<close>. A float is a finite binary64 number,
  held as the rational it is; every operation on floats rounds its exact result to the
  nearest binary64 number (\<open>binary64\<close> below), as the hardware does. Infinities, NaN and the
  sign of zero are outside this model, and so is an integer beyond the float range
  (converting it raises \<open>OverflowError\<close> in Python). A string is a list of 8-bit
  characters (code points below 256).
\<close>

datatype pyval = PNone | PBool bool | PInt int | PFloat rat | PStr string

datatype error = TypeError | ValueError | IndexError

type_synonym pydict = "string \<rightharpoonup> pyval"

text \<open>\<open>d.get(k, default)\<close>\<close>

definition py_get :: "pydict \<Rightarrow> string \<Rightarrow> pyval \<Rightarrow> pyval" where
  "py_get d k dflt = (case d k of None \<Rightarrow> dflt | Some v \<Rightarrow> v)"

text \<open>Truthiness, as \<open>if expiration_date:\<close> tests it.\<close>

fun py_truthy :: "pyval \<Rightarrow> bool" where
  "py_truthy PNone = False"
| "py_truthy (PBool b) = b"
| "py_truthy (PInt n) = (n \<noteq> 0)"
| "py_truthy (PFloat x) = (x \<noteq> 0)"
| "py_truthy (PStr s) = (s \<noteq> [])"

text \<open>
  The number a value denotes in a comparison (\<open>True\<close> is 1, \<open>False\<close> is 0); \<open>None\<close> and
  strings denote none. Python compares an integer with a float by their exact values.
\<close>

fun py_number :: "pyval \<Rightarrow> rat option" where
  "py_number (PInt n) = Some (of_int n)"
| "py_number (PBool b) = Some (if b then 1 else 0)"
| "py_number (PFloat x) = Some x"
| "py_number PNone = None"
| "py_number (PStr s) = None"

text \<open>\<open>v > n\<close> for an integer literal \<open>n\<close>: a \<open>TypeError\<close> unless \<open>v\<close> is a number.\<close>

definition py_gt :: "pyval \<Rightarrow> int \<Rightarrow> error + bool" where
  "py_gt v n = (case py_number v of None \<Rightarrow> Inl TypeError | Some x \<Rightarrow> Inr (of_int n < x))"

section \<open>Binary64 arithmetic\<close>

text \<open>\<open>int.bit_length\<close>, and the powers of two and of ten with an integer exponent.\<close>

function bit_length :: "int \<Rightarrow> int" where
  "bit_length n = (if n \<le> 0 then 0 else bit_length (n div 2) + 1)"
  by pat_completeness auto
termination
  by (relation "measure nat") auto

declare bit_length.simps [simp del]

function pow2 :: "int \<Rightarrow> rat" where
  "pow2 e = (if e = 0 then 1 else if 0 < e then 2 * pow2 (e - 1) else pow2 (e + 1) / 2)"
  by pat_completeness auto
termination
  by (relation "measure (\<lambda>e. nat \<bar>e\<bar>)") auto

declare pow2.simps [simp del]

function pow10 :: "int \<Rightarrow> rat" where
  "pow10 e = (if e = 0 then 1 else if 0 < e then 10 * pow10 (e - 1) else pow10 (e + 1) / 10)"
  by pat_completeness auto
termination
  by (relation "measure (\<lambda>e. nat \<bar>e\<bar>)") auto

declare pow10.simps [simp del]

text \<open>The nearest integer, a tie going to the even one.\<close>

definition round_half_even :: "rat \<Rightarrow> int" where
  "round_half_even y =
     (let f = \<lfloor>y\<rfloor>; r = y - of_int f
      in if r < 1 / 2 then f else if 1 / 2 < r then f + 1 else if even f then f else f + 1)"

text \<open>The exponent \<open>k\<close> with \<open>2^k \<le> a < 2^(k+1)\<close>, for a positive \<open>a\<close>.\<close>

definition floor_log2 :: "rat \<Rightarrow> int" where
  "floor_log2 a =
     (let k = bit_length (fst (quotient_of a)) - bit_length (snd (quotient_of a))
      in if pow2 k \<le> a then k else k - 1)"

text \<open>
  Rounding to binary64: 53 significant bits, the least exponent \<open>-1074\<close> (subnormal
  numbers), round to nearest, ties to even.
\<close>

definition binary64 :: "rat \<Rightarrow> rat" where
  "binary64 x =
     (if x = 0 then 0
      else (let a = \<bar>x\<bar>;
                e = max (floor_log2 a - 52) (- 1074);
                m = round_half_even (a / pow2 e)
            in (if x < 0 then - 1 else 1) * of_int m * pow2 e))"

text \<open>\<open>x * y\<close> and \<open>x - y\<close> on floats, and the float that the literal \<open>0.9\<close> denotes.\<close>

definition fmul :: "rat \<Rightarrow> rat \<Rightarrow> rat" where
  "fmul x y = binary64 (x * y)"

definition fsub :: "rat \<Rightarrow> rat \<Rightarrow> rat" where
  "fsub x y = binary64 (x - y)"

definition float_09 :: rat where
  "float_09 = binary64 (9 / 10)"

text \<open>
  The float an operand of float arithmetic stands for: an integer or a boolean is
  converted to the nearest float, \<open>None\<close> and strings raise \<open>TypeError\<close>. (The
  extraction stores floats and \<open>None\<close> only; for an integer beyond the float range, where
  Python raises \<open>OverflowError\<close>, the model goes on with the integer itself.)
\<close>

fun py_to_float :: "pyval \<Rightarrow> rat option" where
  "py_to_float (PInt n) = Some (binary64 (of_int n))"
| "py_to_float (PBool b) = Some (if b then 1 else 0)"
| "py_to_float (PFloat x) = Some x"
| "py_to_float PNone = None"
| "py_to_float (PStr s) = None"

text \<open>
  \<open>round(x, 2)\<close> on a float: the exact value of \<open>x\<close> is rounded to two decimals, a tie
  going to the even neighbour, and that decimal is read back as a float.
\<close>

definition py_round2 :: "rat \<Rightarrow> rat" where
  "py_round2 x = binary64 (of_int (round_half_even (x * 100)) / 100)"

section \<open>Formatting numbers\<close>

definition digit_char :: "int \<Rightarrow> char" where
  "digit_char n = ''0123456789'' ! nat n"

text \<open>The decimal digits of an integer that is not negative.\<close>

function digits_of :: "int \<Rightarrow> string" where
  "digits_of n = (if n < 10 then [digit_char n] else digits_of (n div 10) @ [digit_char (n mod 10)])"
  by pat_completeness auto
termination
  by (relation "measure nat") auto

declare digits_of.simps [simp del]

text \<open>\<open>str(n)\<close>, as an f-string prints an integer.\<close>

definition str_int :: "int \<Rightarrow> string" where
  "str_int n = (if n < 0 then CHR ''-'' # digits_of (- n) else digits_of n)"

text \<open>The thousands separator of the format specification \<open>:,\<close>.\<close>

fun group3 :: "string \<Rightarrow> string" where
  "group3 ds =
     (if length ds \<le> 3 then ds
      else group3 (take (length ds - 3) ds) @ CHR '','' # drop (length ds - 3) ds)"

declare group3.simps [simp del]

definition fmt_int_comma :: "int \<Rightarrow> string" where
  "fmt_int_comma n =
     (if n < 0 then CHR ''-'' # group3 (digits_of (- n)) else group3 (digits_of n))"

text \<open>
  A float under \<open>:,\<close> is printed like \<open>repr\<close>: with the fewest significant digits that
  read back as the same float (of two such decimals the nearer one, of two equally
  near the even one), in exponent notation when the decimal point would stand more than
  16 places right or more than 3 places left of the first digit, and otherwise with at
  least one digit after the point and the separators in the integer part.
\<close>

text \<open>The exponent \<open>k\<close> with \<open>10^k \<le> a < 10^(k+1)\<close>, for a positive \<open>a\<close>.\<close>

definition floor_log10 :: "rat \<Rightarrow> int" where
  "floor_log10 a =
     (if 1 \<le> a then int (length (digits_of \<lfloor>a\<rfloor>)) - 1
      else (let e = - int (length (digits_of \<lfloor>1 / a\<rfloor>))
            in if pow10 (e + 1) \<le> a then e + 1 else e))"

text \<open>
  The decimal \<open>c * 10^q\<close> with \<open>k\<close> significant digits that reads back as \<open>a\<close>, if there
  is one.
\<close>

definition candidates :: "rat \<Rightarrow> int \<Rightarrow> (int \<times> int) list" where
  "candidates a k =
     (let q = floor_log10 a - k + 1; lo = \<lfloor>a / pow10 q\<rfloor>;
          ok = filter (\<lambda>c. 0 < c \<and> binary64 (of_int c * pow10 q) = a) [lo, lo + 1]
      in map (\<lambda>c. (c, q))
           (case ok of
              [c1, c2] \<Rightarrow>
                (let below = a - of_int c1 * pow10 q; above = of_int c2 * pow10 q - a
                 in if below < above \<or> (below = above \<and> even c1) then [c1] else [c2])
            | _ \<Rightarrow> ok))"

function strip_zeros :: "int \<times> int \<Rightarrow> int \<times> int" where
  "strip_zeros (c, q) = (if c \<noteq> 0 \<and> c mod 10 = 0 then strip_zeros (c div 10, q + 1) else (c, q))"
  by pat_completeness auto
termination
  by (relation "measure (\<lambda>(c, q). nat \<bar>c\<bar>)") auto

declare strip_zeros.simps [simp del]

text \<open>
  The digits of \<open>repr\<close>. Seventeen digits suffice for every binary64 number; the first
  case serves the rationals that are none.
\<close>

definition shortest_digits :: "rat \<Rightarrow> int \<times> int" where
  "shortest_digits a =
     (case concat (map (candidates a) [1..17]) of
        [] \<Rightarrow> strip_zeros (round_half_even (a / pow10 (floor_log10 a - 16)), floor_log10 a - 16)
      | cq # _ \<Rightarrow> strip_zeros cq)"

definition fmt_exp :: "int \<Rightarrow> string" where
  "fmt_exp e =
     (if e < 0 then CHR ''-'' else CHR ''+'') #
     (if \<bar>e\<bar> < 10 then CHR ''0'' # digits_of \<bar>e\<bar> else digits_of \<bar>e\<bar>)"

text \<open>
  A float that is not negative. A whole number below \<open>10^16\<close> is printed with all its
  digits and \<open>.0\<close>, which is what the digits of \<open>repr\<close> give there.
\<close>

definition fmt_float_abs :: "rat \<Rightarrow> string" where
  "fmt_float_abs a =
     (if of_int \<lfloor>a\<rfloor> = a \<and> a < 10000000000000000 then group3 (digits_of \<lfloor>a\<rfloor>) @ ''.0''
      else (let (c, q) = shortest_digits a; ds = digits_of c; n = int (length ds); decpt = n + q
            in if decpt \<le> - 4 \<or> 16 < decpt
               then take 1 ds @ (if 1 < n then CHR ''.'' # drop 1 ds else [])
                    @ CHR ''e'' # fmt_exp (decpt - 1)
               else if decpt \<le> 0
               then ''0.'' @ replicate (nat (- decpt)) CHR ''0'' @ ds
               else if n \<le> decpt
               then group3 (ds @ replicate (nat (decpt - n)) CHR ''0'') @ ''.0''
               else group3 (take (nat decpt) ds) @ CHR ''.'' # drop (nat decpt) ds))"

definition fmt_float_comma :: "rat \<Rightarrow> string" where
  "fmt_float_comma x = (if x < 0 then CHR ''-'' # fmt_float_abs (- x) else fmt_float_abs x)"

text \<open>
  \<open>f"{v:,}"\<close>. \<open>None\<close> and strings do not reach the format in \<open>check_eligibility\<close>; they
  raise.
\<close>

fun fmt_comma :: "pyval \<Rightarrow> error + string" where
  "fmt_comma (PInt n) = Inr (fmt_int_comma n)"
| "fmt_comma (PBool b) = Inr (fmt_int_comma (if b then 1 else 0))"
| "fmt_comma (PFloat x) = Inr (fmt_float_comma x)"
| "fmt_comma PNone = Inl TypeError"
| "fmt_comma (PStr s) = Inl ValueError"

section \<open>Dates\<close>

text \<open>
  \<open>datetime\<close> of the standard library: a proleptic Gregorian date and a time of day.
  \<open>ymd2ord\<close> is the day number that \<open>toordinal\<close> returns (1 for 1 January of year 1).
\<close>

record datetime =
  dt_year :: int
  dt_month :: int
  dt_day :: int
  dt_hour :: int
  dt_minute :: int
  dt_second :: int
  dt_microsecond :: int

definition is_leap :: "int \<Rightarrow> bool" where
  "is_leap y = (y mod 4 = 0 \<and> (y mod 100 \<noteq> 0 \<or> y mod 400 = 0))"

definition days_in_month :: "int \<Rightarrow> int \<Rightarrow> int" where
  "days_in_month y m =
     (if m = 2 then (if is_leap y then 29 else 28)
      else if m \<in> {4, 6, 9, 11} then 30 else 31)"

definition days_before_year :: "int \<Rightarrow> int" where
  "days_before_year y =
     (let p = y - 1 in p * 365 + p div 4 - p div 100 + p div 400)"

definition days_before_month :: "int \<Rightarrow> int \<Rightarrow> int" where
  "days_before_month y m = sum_list (map (days_in_month y) [1..m - 1])"

definition ymd2ord :: "int \<Rightarrow> int \<Rightarrow> int \<Rightarrow> int" where
  "ymd2ord y m d = days_before_year y + days_before_month y m + d"

definition valid_datetime :: "datetime \<Rightarrow> bool" where
  "valid_datetime t =
     (1 \<le> dt_year t \<and> dt_year t \<le> 9999 \<and> 1 \<le> dt_month t \<and> dt_month t \<le> 12
      \<and> 1 \<le> dt_day t \<and> dt_day t \<le> days_in_month (dt_year t) (dt_month t)
      \<and> 0 \<le> dt_hour t \<and> dt_hour t < 24 \<and> 0 \<le> dt_minute t \<and> dt_minute t < 60
      \<and> 0 \<le> dt_second t \<and> dt_second t < 60
      \<and> 0 \<le> dt_microsecond t \<and> dt_microsecond t < 1000000)"

definition toordinal :: "datetime \<Rightarrow> int" where
  "toordinal t = ymd2ord (dt_year t) (dt_month t) (dt_day t)"

text \<open>Microseconds since midnight.\<close>

definition time_of_day :: "datetime \<Rightarrow> int" where
  "time_of_day t =
     ((dt_hour t * 60 + dt_minute t) * 60 + dt_second t) * 1000000 + dt_microsecond t"

definition to_micros :: "datetime \<Rightarrow> int" where
  "to_micros t = toordinal t * 86400000000 + time_of_day t"

text \<open>
  \<open>(a - b).days\<close>: a \<open>timedelta\<close> is normalised so that its seconds and microseconds are
  not negative, hence the day count is the floor of the difference.
\<close>

definition timedelta_days :: "datetime \<Rightarrow> datetime \<Rightarrow> int" where
  "timedelta_days a b = (to_micros a - to_micros b) div 86400000000"

subsection \<open>\<open>datetime.strptime(s, '%m/%d/%Y')\<close>\<close>

definition is_digit :: "char \<Rightarrow> bool" where
  "is_digit c = (c \<in> set ''0123456789'')"

definition digit_val :: "char \<Rightarrow> int" where
  "digit_val c = of_char c - 48"

text \<open>\<open>int(ds)\<close> for a string of decimal digits.\<close>

definition int_of_digits :: "string \<Rightarrow> int" where
  "int_of_digits ds = foldl (\<lambda>a c. 10 * a + digit_val c) 0 ds"

text \<open>
  The library turns the directives into the regular expressions
  \<open>1[0-2]|0[1-9]|[1-9]\<close> for \<open>%m\<close>, \<open>3[0-1]|[1-2]\d|0[1-9]|[1-9]| [1-9]\<close> for \<open>%d\<close> and
  \<open>\d\d\d\d\<close> for \<open>%Y\<close>, matches them against the whole string with the two slashes
  between, and then builds the date, which fails for year 0 and for a day the month
  does not have. A field holds no slash, so the string splits at its first two slashes.
\<close>

definition month_field :: "string \<Rightarrow> bool" where
  "month_field ms =
     ((length ms = 1 \<or> length ms = 2) \<and> list_all is_digit ms
      \<and> 1 \<le> int_of_digits ms \<and> int_of_digits ms \<le> 12)"

definition day_field :: "string \<Rightarrow> bool" where
  "day_field ds =
     (((length ds = 1 \<or> length ds = 2) \<and> list_all is_digit ds
       \<and> 1 \<le> int_of_digits ds \<and> int_of_digits ds \<le> 31)
      \<or> (\<exists>c \<in> set ''123456789''. ds = [CHR '' '', c]))"

definition year_field :: "string \<Rightarrow> bool" where
  "year_field ys = (length ys = 4 \<and> list_all is_digit ys)"

definition not_slash :: "char \<Rightarrow> bool" where
  "not_slash c = (c \<noteq> CHR ''/'')"

definition strptime_mdY :: "string \<Rightarrow> datetime option" where
  "strptime_mdY s =
     (let ms = takeWhile not_slash s in
      case dropWhile not_slash s of
        [] \<Rightarrow> None
      | _ # s2 \<Rightarrow>
          (let ds = takeWhile not_slash s2 in
           case dropWhile not_slash s2 of
             [] \<Rightarrow> None
           | _ # ys \<Rightarrow>
               if month_field ms \<and> day_field ds \<and> year_field ys then
                 (let y = int_of_digits ys; m = int_of_digits ms;
                      d = int_of_digits (dropWhile (\<lambda>c. c = CHR '' '') ds)
                  in if 1 \<le> y \<and> d \<le> days_in_month y m
                     then Some \<lparr>dt_year = y, dt_month = m, dt_day = d, dt_hour = 0,
                                 dt_minute = 0, dt_second = 0, dt_microsecond = 0\<rparr>
                     else None)
               else None))"

section \<open>\<open>check_eligibility\<close>\<close>

record decision =
  eligible :: bool
  reason :: string
  our_price :: pyval
  savings :: pyval
  savings_percent :: pyval

text \<open>The dictionary \<open>results\<close> as the function creates it.\<close>

definition results_init :: decision where
  "results_init =
     \<lparr>eligible = False, reason = [], our_price = PInt 0, savings = PInt 0,
      savings_percent = PInt 0\<rparr>"

text \<open>
  The body of the \<open>try\<close> block of the expiry check: \<open>strptime\<close> raises \<open>TypeError\<close> for a
  value that is not a string and \<open>ValueError\<close> for a string that is not a date; the
  handler catches both, so the outcome is the day count or nothing.
\<close>

definition days_until_expiry :: "datetime \<Rightarrow> pyval \<Rightarrow> int option" where
  "days_until_expiry now v =
     (case v of
        PStr s \<Rightarrow> (case strptime_mdY s of
                     None \<Rightarrow> None
                   | Some exp_date \<Rightarrow> Some (timedelta_days exp_date now))
      | _ \<Rightarrow> None)"

text \<open>
  The expiry check (from \<open># Check Expiration Date\<close> to the end of the \<open>try\<close>): the day
  count with which the function rejects, or nothing when it goes on to the pricing.
\<close>

definition expiry_gate :: "datetime \<Rightarrow> pydict \<Rightarrow> int option" where
  "expiry_gate now extracted_data =
     (let expiration_date = py_get extracted_data ''expiration_date'' PNone
      in if py_truthy expiration_date
         then (case days_until_expiry now expiration_date of
                 None \<Rightarrow> None
               | Some days \<Rightarrow> if days < 30 then Some days else None)
         else None)"

text \<open>
  The pricing step (from \<open># Calculate pricing\<close> to the end). \<open>current_premium * 0.9\<close>
  raises \<open>TypeError\<close> for a string; an integer premium is converted to a float by the
  multiplication and by the subtraction.
\<close>

definition current_premium :: "pydict \<Rightarrow> pyval" where
  "current_premium extracted_data =
     (let current_premium = py_get extracted_data ''premium'' (PInt 0)
      in if current_premium = PNone then PFloat 3500 else current_premium)"

definition pricing :: "decision \<Rightarrow> pydict \<Rightarrow> error + decision" where
  "pricing results extracted_data =
     (case py_to_float (current_premium extracted_data) of
           None \<Rightarrow> Inl TypeError
         | Some p \<Rightarrow>
             (let our_price = fmul p float_09;
                  savings = fsub p our_price;
                  savings_percent = 10
              in Inr (results\<lparr>eligible := True,
                              our_price := PFloat (py_round2 our_price),
                              savings := PFloat (py_round2 savings),
                              savings_percent := PFloat savings_percent,
                              reason := ''Eligible for quote - we can match your coverage and save you money!''\<rparr>)))"

text \<open>
  \<open>check_eligibility(extracted_data)\<close>. The clock that \<open>datetime.now()\<close> reads is a
  parameter. \<open>Inl\<close> is an exception that leaves the function.
\<close>

definition check_eligibility :: "datetime \<Rightarrow> pydict \<Rightarrow> error + decision" where
  "check_eligibility now extracted_data =
     (let results = results_init;
          general_aggregate = py_get extracted_data ''general_aggregate'' (PInt 0)
      in if general_aggregate = PNone
         then Inr (results\<lparr>reason := ''Unable to determine General Aggregate limit''\<rparr>)
         else
           (case py_gt general_aggregate 2000000 of
              Inl e \<Rightarrow> Inl e
            | Inr True \<Rightarrow>
                (case fmt_comma general_aggregate of
                   Inl e \<Rightarrow> Inl e
                 | Inr shown \<Rightarrow>
                     Inr (results\<lparr>reason := ''General Aggregate $'' @ shown
                            @ '' exceeds our maximum limit of $2,000,000''\<rparr>))
            | Inr False \<Rightarrow>
                (case expiry_gate now extracted_data of
                   Some days \<Rightarrow>
                     Inr (results\<lparr>reason := ''Policy expires in '' @ str_int days
                            @ '' days (minimum 30 days required)''\<rparr>)
                 | None \<Rightarrow> pricing results extracted_data)))"

section \<open>Regular expressions\<close>

text \<open>
  The fragment of Python's \<open>re\<close> that the patterns of \<open>extract_coi_data\<close> use: literal
  characters, \<open>.\<close>, \<open>\d\<close>, a character set, a repetition of one of these (greedy or lazy,
  with bounds), sequence and one capture group. \<open>re\<close> is a backtracking matcher:
  \<open>matches\<close> lists the ways a pattern matches at the front of a string in the order the
  backtracking tries them, each as the matched text, the text of group 1 if the group
  took part, and the rest of the string. The match that \<open>re\<close> reports is the head.
\<close>

datatype set_item = SDigit | SChar char

datatype atom = Lit char | Dot | Digit | OneOf "set_item list"

datatype greed = Greedy | Lazy

datatype rx = Eps | Atom atom | Seq rx rx | Rep atom nat "nat option" greed | Group rx

record flags =
  ignorecase :: bool
  dotall :: bool

text \<open>
  Case folding. The patterns hold ASCII letters only, and below code point 256 an ASCII
  letter folds together with its other case and with nothing else.
\<close>

definition ascii_lower :: "char \<Rightarrow> char" where
  "ascii_lower c =
     (case map_of (zip ''ABCDEFGHIJKLMNOPQRSTUVWXYZ'' ''abcdefghijklmnopqrstuvwxyz'') c of
        None \<Rightarrow> c
      | Some l \<Rightarrow> l)"

fun item_ok :: "set_item \<Rightarrow> char \<Rightarrow> bool" where
  "item_ok SDigit c = is_digit c"
| "item_ok (SChar x) c = (x = c)"

fun atom_ok :: "flags \<Rightarrow> atom \<Rightarrow> char \<Rightarrow> bool" where
  "atom_ok fl (Lit x) c = (if ignorecase fl then ascii_lower x = ascii_lower c else x = c)"
| "atom_ok fl Dot c = (dotall fl \<or> c \<noteq> CHR 0x0A)"
| "atom_ok fl Digit c = is_digit c"
| "atom_ok fl (OneOf items) c = list_ex (\<lambda>i. item_ok i c) items"

text \<open>
  The ways to split off a run of at most \<open>hi\<close> characters that satisfy \<open>p\<close>, shortest
  first.
\<close>

fun splits :: "(char \<Rightarrow> bool) \<Rightarrow> nat option \<Rightarrow> string \<Rightarrow> (string \<times> string) list" where
  "splits p hi [] = [([], [])]"
| "splits p hi (c # cs) =
     ([], c # cs) #
     (if p c \<and> hi \<noteq> Some 0
      then map (\<lambda>(w, r). (c # w, r)) (splits p (map_option (\<lambda>h. h - 1) hi) cs)
      else [])"

type_synonym match = "string \<times> string option \<times> string"

fun matches :: "flags \<Rightarrow> rx \<Rightarrow> string \<Rightarrow> match list" where
  "matches fl Eps s = [([], None, s)]"
| "matches fl (Atom a) s =
     (case s of
        [] \<Rightarrow> []
      | c # cs \<Rightarrow> if atom_ok fl a c then [([c], None, cs)] else [])"
| "matches fl (Seq r1 r2) s =
     concat (map (\<lambda>(w1, g1, s1).
                    map (\<lambda>(w2, g2, s2). (w1 @ w2, (case g2 of None \<Rightarrow> g1 | Some v \<Rightarrow> Some v), s2))
                        (matches fl r2 s1))
                 (matches fl r1 s))"
| "matches fl (Rep a lo hi g) s =
     (let runs = filter (\<lambda>(w, r). lo \<le> length w) (splits (atom_ok fl a) hi s)
      in map (\<lambda>(w, r). (w, None, r)) (case g of Greedy \<Rightarrow> rev runs | Lazy \<Rightarrow> runs))"
| "matches fl (Group r) s = map (\<lambda>(w, g, s'). (w, Some w, s')) (matches fl r s)"

text \<open>\<open>re.search\<close>: the first match at the leftmost position that has one.\<close>

fun search :: "flags \<Rightarrow> rx \<Rightarrow> string \<Rightarrow> match option" where
  "search fl r [] = (case matches fl r [] of [] \<Rightarrow> None | x # _ \<Rightarrow> Some x)"
| "search fl r (c # cs) =
     (case matches fl r (c # cs) of [] \<Rightarrow> search fl r cs | x # _ \<Rightarrow> Some x)"

text \<open>
  \<open>re.findall\<close> for a pattern with at most one group: the group (or the whole match) of
  each match, left to right, the scan going on where the match ended, or one character
  on after an empty match.
\<close>

function findall :: "flags \<Rightarrow> rx \<Rightarrow> string \<Rightarrow> string list" where
  "findall fl r s =
     (case matches fl r s of
        [] \<Rightarrow> (case s of [] \<Rightarrow> [] | c # cs \<Rightarrow> findall fl r cs)
      | (w, g, s') # _ \<Rightarrow>
          (case g of None \<Rightarrow> w | Some v \<Rightarrow> v) #
          (if s = [] then [] else findall fl r (drop (max 1 (length w)) s)))"
  by pat_completeness auto
termination
  by (relation "measure (\<lambda>(fl, r, s). length s)") auto

declare findall.simps [simp del]

text \<open>A literal string in a pattern, followed by the rest of the pattern.\<close>

fun lit :: "string \<Rightarrow> rx \<Rightarrow> rx" where
  "lit [] r = r"
| "lit (c # cs) r = Seq (Atom (Lit c)) (lit cs r)"

section \<open>\<open>extract_coi_data\<close>\<close>

definition no_flags :: flags where
  "no_flags = \<lparr>ignorecase = False, dotall = False\<rparr>"

definition flag_I :: flags where
  "flag_I = \<lparr>ignorecase = True, dotall = False\<rparr>"

definition flag_IS :: flags where
  "flag_IS = \<lparr>ignorecase = True, dotall = True\<rparr>"

text \<open>\<open>.*?\<close>\<close>

definition lazy_any :: rx where
  "lazy_any = Rep Dot 0 None Lazy"

text \<open>\<open>\$[\d,]+\<close>\<close>

definition dollar_amount :: rx where
  "dollar_amount = Seq (Atom (Lit CHR ''$'')) (Rep (OneOf [SDigit, SChar CHR '','']) 1 None Greedy)"

text \<open>\<open>\$[\d,]+\.?\d*\<close>\<close>

definition dollar_decimal :: rx where
  "dollar_decimal =
     Seq (Atom (Lit CHR ''$''))
       (Seq (Rep (OneOf [SDigit, SChar CHR '','']) 1 None Greedy)
          (Seq (Rep (Lit CHR ''.'') 0 (Some 1) Greedy) (Rep Digit 0 None Greedy)))"

text \<open>\<open>\d{1,2}/\d{1,2}/\d{4}\<close>\<close>

definition date_shape :: rx where
  "date_shape =
     Seq (Rep Digit 1 (Some 2) Greedy)
       (Seq (Atom (Lit CHR ''/''))
          (Seq (Rep Digit 1 (Some 2) Greedy)
             (Seq (Atom (Lit CHR ''/'')) (Rep Digit 4 (Some 4) Greedy))))"

text \<open>\<open>GENERAL AGGREGATE.*?(\$[\d,]+)\<close>\<close>

definition ga_pattern :: rx where
  "ga_pattern = lit ''GENERAL AGGREGATE'' (Seq lazy_any (Group dollar_amount))"

definition exp_patterns :: "rx list" where
  "exp_patterns =
     [lit ''EXP'' (Seq lazy_any (Group date_shape)),
      Seq (Group date_shape) (Seq lazy_any (lit ''EXP'' Eps)),
      lit ''01/01/2026'' Eps,
      Group date_shape]"

definition premium_patterns :: "rx list" where
  "premium_patterns =
     [lit ''TOTAL ANNUAL PREMIUM'' (Seq lazy_any (Group dollar_decimal)),
      lit ''PREMIUM'' (Seq lazy_any (Group dollar_decimal)),
      Seq (Group dollar_decimal) (Seq lazy_any (lit ''ANNUAL'' Eps)),
      Group (lit ''$3,500'' Eps)]"

text \<open>The pattern of the fallback sweep, \<open>(\$[\d,]+\.?\d*)\<close>.\<close>

definition premium_pattern :: rx where
  "premium_pattern = Group dollar_decimal"

text \<open>\<open>match.group(1)\<close>: an \<open>IndexError\<close> when the pattern has no group.\<close>

definition group1 :: "match \<Rightarrow> error + string" where
  "group1 mt = (case fst (snd mt) of None \<Rightarrow> Inl IndexError | Some v \<Rightarrow> Inr v)"

text \<open>\<open>.replace('$', '').replace(',', '')\<close>\<close>

definition strip_currency :: "string \<Rightarrow> string" where
  "strip_currency v = filter (\<lambda>c. c \<noteq> CHR '','') (filter (\<lambda>c. c \<noteq> CHR ''$'') v)"

text \<open>
  \<open>float(v)\<close>: the float nearest to the decimal. Only strings of digits with at most one
  point reach it (what the patterns capture, stripped); among those it raises
  \<open>ValueError\<close> for the ones without a digit. The other strings that Python reads as a
  float (a sign, an exponent, blanks around) are not modelled and count as errors here.
\<close>

definition py_float :: "string \<Rightarrow> error + rat" where
  "py_float v =
     (let ip = takeWhile is_digit v in
      case dropWhile is_digit v of
        [] \<Rightarrow> if ip = [] then Inl ValueError else Inr (binary64 (of_int (int_of_digits ip)))
      | c # fp \<Rightarrow>
          if c = CHR ''.'' \<and> list_all is_digit fp \<and> (ip \<noteq> [] \<or> fp \<noteq> [])
          then Inr (binary64 (of_int (int_of_digits ip) + of_int (int_of_digits fp) / 10 ^ length fp))
          else Inl ValueError)"

definition sample_data :: pydict where
  "sample_data =
     [''general_aggregate'' \<mapsto> PInt 2,
      ''expiration_date'' \<mapsto> PStr ''08/08/2026'',
      ''premium'' \<mapsto> PFloat 3,
      ''extraction_success'' \<mapsto> PBool True]"

text \<open>
  The general aggregate (\<open># Try to extract General Aggregate\<close>). The conversion to a float
  is not guarded: its \<open>ValueError\<close> leaves the step.
\<close>

definition extract_general_aggregate :: "string \<Rightarrow> pydict \<Rightarrow> error + pydict" where
  "extract_general_aggregate text d =
     (case search flag_IS ga_pattern text of
        None \<Rightarrow> Inr d
      | Some ga_match \<Rightarrow>
          (case group1 ga_match of
             Inl e \<Rightarrow> Inl e
           | Inr v \<Rightarrow>
               (case py_float (strip_currency v) of
                  Inl e \<Rightarrow> Inl e
                | Inr x \<Rightarrow> Inr (d(''general_aggregate'' \<mapsto> PFloat x)))))"

text \<open>The loop over \<open>exp_patterns\<close>: the first pattern that matches decides.\<close>

fun exp_cascade :: "rx list \<Rightarrow> string \<Rightarrow> string option" where
  "exp_cascade [] text = None"
| "exp_cascade (pattern # rest) text =
     (case search no_flags pattern text of
        None \<Rightarrow> exp_cascade rest text
      | Some (w, g, _) \<Rightarrow> Some (case g of Some v \<Rightarrow> v | None \<Rightarrow> w))"

definition extract_expiration_date :: "string \<Rightarrow> pydict \<Rightarrow> pydict" where
  "extract_expiration_date text d =
     (case exp_cascade exp_patterns text of
        None \<Rightarrow> d
      | Some v \<Rightarrow> d(''expiration_date'' \<mapsto> PStr v))"

text \<open>
  The loop over \<open>premium_patterns\<close>: a pattern that does not match, or whose capture is not
  a float, is passed over.
\<close>

fun premium_cascade :: "rx list \<Rightarrow> string \<Rightarrow> error + rat option" where
  "premium_cascade [] text = Inr None"
| "premium_cascade (pattern # rest) text =
     (case search flag_I pattern text of
        None \<Rightarrow> premium_cascade rest text
      | Some premium_match \<Rightarrow>
          (case group1 premium_match of
             Inl e \<Rightarrow> Inl e
           | Inr v \<Rightarrow>
               (case py_float (strip_currency v) of
                  Inl _ \<Rightarrow> premium_cascade rest text
                | Inr premium_float \<Rightarrow> Inr (Some premium_float))))"

text \<open>The loop over \<open>premium_matches\<close> of the fallback.\<close>

fun premium_sweep :: "string list \<Rightarrow> rat option" where
  "premium_sweep [] = None"
| "premium_sweep (mt # rest) =
     (case py_float (strip_currency mt) of
        Inl _ \<Rightarrow> premium_sweep rest
      | Inr premium_float \<Rightarrow>
          if 1000 \<le> premium_float \<and> premium_float \<le> 10000 then Some premium_float
          else premium_sweep rest)"

definition extract_premium :: "string \<Rightarrow> pydict \<Rightarrow> error + pydict" where
  "extract_premium text d =
     (case premium_cascade premium_patterns text of
        Inl e \<Rightarrow> Inl e
      | Inr (Some premium_float) \<Rightarrow> Inr (d(''premium'' \<mapsto> PFloat premium_float))
      | Inr None \<Rightarrow>
          (case premium_sweep (findall no_flags premium_pattern text) of
             None \<Rightarrow> Inr d
           | Some premium_float \<Rightarrow> Inr (d(''premium'' \<mapsto> PFloat premium_float))))"

text \<open>The three extractions on the text of the document, in the order of the source.\<close>

definition extract_fields :: "string \<Rightarrow> pydict \<Rightarrow> error + pydict" where
  "extract_fields text d =
     (case extract_general_aggregate text d of
        Inl e \<Rightarrow> Inl e
      | Inr d1 \<Rightarrow> extract_premium text (extract_expiration_date text d1))"

text \<open>
  What the uploaded file and the PDF library give the function: reading raises, the
  library is not installed, or the pages have these texts.
\<close>

datatype upload = Unreadable | No_PyPDF2 | Pages "string list"

text \<open>
  \<open>extract_coi_data(uploaded_file)\<close>. The displays of \<open>st\<close> change nothing. An exception
  of the general-aggregate step reaches the outer handler before any key was stored, so
  the dictionary returned then is \<open>sample_data\<close> with the success flag cleared.
\<close>

definition extract_coi_data :: "upload \<Rightarrow> pydict" where
  "extract_coi_data uploaded_file =
     (case uploaded_file of
        Unreadable \<Rightarrow> sample_data(''extraction_success'' \<mapsto> PBool False)
      | No_PyPDF2 \<Rightarrow> sample_data(''extraction_success'' \<mapsto> PBool False)
      | Pages pages \<Rightarrow>
          (let text = concat (map (\<lambda>page. page @ [CHR 0x0A]) pages)
           in case extract_fields text sample_data of
                Inl e \<Rightarrow> sample_data(''extraction_success'' \<mapsto> PBool False)
              | Inr d \<Rightarrow> d))"

section \<open>Vocabulary of the properties\<close>

text \<open>
  The aggregate gate lets a record pass: the value is not \<open>None\<close> and the comparison with
  2,000,000 is false.
\<close>

definition passes_aggregate_gate :: "pydict \<Rightarrow> bool" where
  "passes_aggregate_gate extracted_data =
     (let general_aggregate = py_get extracted_data ''general_aggregate'' (PInt 0)
      in general_aggregate \<noteq> PNone \<and> py_gt general_aggregate 2000000 = Inr False)"





definition expiry_rejection :: "int \<Rightarrow> decision" where
  "expiry_rejection days =
     results_init\<lparr>reason := ''Policy expires in '' @ str_int days
                     @ '' days (minimum 30 days required)''\<rparr>"

text \<open>Inputs for the examples: two clocks on 15 June 2025, a date, a record.\<close>

definition june_15_noon :: datetime where
  "june_15_noon =
     \<lparr>dt_year = 2025, dt_month = 6, dt_day = 15, dt_hour = 12, dt_minute = 0, dt_second = 0,
      dt_microsecond = 0\<rparr>"

definition june_15_midnight :: datetime where
  "june_15_midnight =
     \<lparr>dt_year = 2025, dt_month = 6, dt_day = 15, dt_hour = 0, dt_minute = 0, dt_second = 0,
      dt_microsecond = 0\<rparr>"

definition midnight_of :: "int \<Rightarrow> int \<Rightarrow> int \<Rightarrow> datetime" where
  "midnight_of y m d =
     \<lparr>dt_year = y, dt_month = m, dt_day = d, dt_hour = 0, dt_minute = 0, dt_second = 0,
      dt_microsecond = 0\<rparr>"

definition coi_result :: "pyval \<Rightarrow> string \<Rightarrow> pyval \<Rightarrow> pydict" where
  "coi_result ga expiry prem =
     [''general_aggregate'' \<mapsto> ga, ''expiration_date'' \<mapsto> PStr expiry, ''premium'' \<mapsto> prem,
      ''extraction_success'' \<mapsto> PBool True]"

text \<open>The string \<open>p\<close> stands at the front of \<open>s\<close>, in any letter case.\<close>

fun ci_prefix :: "string \<Rightarrow> string \<Rightarrow> bool" where
  "ci_prefix [] s = True"
| "ci_prefix (c # p) [] = False"
| "ci_prefix (c # p) (x # s) = (ascii_lower c = ascii_lower x \<and> ci_prefix p s)"

text \<open>The string \<open>p\<close> occurs in \<open>s\<close>, in any letter case, from a position before \<open>n\<close>.\<close>

definition starts_before :: "string \<Rightarrow> string \<Rightarrow> nat \<Rightarrow> bool" where
  "starts_before p s n = list_ex (\<lambda>k. ci_prefix p (drop k s)) [0..<n]"

text \<open>No digit and no comma goes on after an amount.\<close>

definition amount_ends :: "string \<Rightarrow> bool" where
  "amount_ends post = (case post of [] \<Rightarrow> True | c # _ \<Rightarrow> \<not> is_digit c \<and> c \<noteq> CHR '','')"

text \<open>The pattern holds a capture group that every match goes through.\<close>

fun has_group :: "rx \<Rightarrow> bool" where
  "has_group (Group r) = True"
| "has_group (Seq r1 r2) = (has_group r1 \<or> has_group r2)"
| "has_group r = False"

text \<open>
  The sweep as the specification words it. A currency-shaped token is a dollar sign, one
  or more digits or commas, then possibly a point, then digits; \<open>take_amount\<close> reads one
  at the front of a string and \<open>currency_tokens\<close> lists them in order of occurrence.
  \<open>first_in_range\<close> is the value of the first token that is a number between 1000 and
  10000, both included.
\<close>

definition amount_char :: "char \<Rightarrow> bool" where
  "amount_char c = (is_digit c \<or> c = CHR '','')"

definition take_amount :: "string \<Rightarrow> (string \<times> string) option" where
  "take_amount s =
     (case s of
        [] \<Rightarrow> None
      | c # cs \<Rightarrow>
          if c = CHR ''$'' \<and> takeWhile amount_char cs \<noteq> [] then
            (let body = takeWhile amount_char cs;
                 r1 = dropWhile amount_char cs;
                 dot = (case r1 of [] \<Rightarrow> [] | d # _ \<Rightarrow> if d = CHR ''.'' then [d] else []);
                 r2 = drop (length dot) r1
             in Some (c # body @ dot @ takeWhile is_digit r2, dropWhile is_digit r2))
          else None)"

function currency_tokens :: "string \<Rightarrow> string list" where
  "currency_tokens s =
     (case take_amount s of
        Some (tok, rest) \<Rightarrow> tok # currency_tokens (drop (length tok) s)
      | None \<Rightarrow> (case s of [] \<Rightarrow> [] | c # cs \<Rightarrow> currency_tokens cs))"
  by pat_completeness auto
termination
  by (relation "measure length") (auto simp: take_amount_def Let_def split: list.splits if_splits)

declare currency_tokens.simps [simp del]

text \<open>The head of a list of matches: the match that \<open>re\<close> reports.\<close>

definition first :: "'a list \<Rightarrow> 'a option" where
  "first xs = (case xs of [] \<Rightarrow> None | x # _ \<Rightarrow> Some x)"

definition first_in_range :: "string list \<Rightarrow> rat option" where
  "first_in_range toks =
     List.find (\<lambda>v. 1000 \<le> v \<and> v \<le> 10000)
       (List.map_filter (\<lambda>t. case py_float (strip_currency t) of Inl _ \<Rightarrow> None | Inr v \<Rightarrow> Some v)
          toks)"

section \<open>The expiry check\<close>

lemma time_of_day_bounds:
  assumes "valid_datetime t"
  shows "0 \<le> time_of_day t" and "time_of_day t < 86400000000"
proof -
  from assms have h: "0 \<le> dt_hour t" "dt_hour t \<le> 23" "0 \<le> dt_minute t" "dt_minute t \<le> 59"
    "0 \<le> dt_second t" "dt_second t \<le> 59" "0 \<le> dt_microsecond t" "dt_microsecond t \<le> 999999"
    by (auto simp: valid_datetime_def)
  show "0 \<le> time_of_day t" using h by (simp add: time_of_day_def)
  show "time_of_day t < 86400000000" using h unfolding time_of_day_def by simp
qed

lemma strptime_midnight: "strptime_mdY s = Some e \<Longrightarrow> time_of_day e = 0"
  unfolding strptime_mdY_def Let_def
  by (simp split: list.splits if_splits) (auto simp: time_of_day_def)

lemma strptime_nonempty: "strptime_mdY s = Some e \<Longrightarrow> s \<noteq> []"
  by (auto simp: strptime_mdY_def)

lemma floor_days:
  fixes k t :: int
  assumes "0 < t" and "t < 86400000000"
  shows "(k * 86400000000 - t) div 86400000000 = k - 1"
proof -
  have e: "k * 86400000000 - t = (86400000000 - t) + (k - 1) * 86400000000"
    by (simp add: algebra_simps)
  have "0 \<le> 86400000000 - t" "86400000000 - t < 86400000000"
    using assms by simp_all
  then have z: "(86400000000 - t) div 86400000000 = 0"
    by (rule div_pos_pos_trivial)
  show ?thesis
    unfolding e by (simp only: div_mult_self1 z)
qed

text \<open>
  From a clock at midnight the day count to a date is the difference of the day numbers;
  from any later time of that day it is one less.
\<close>

lemma timedelta_days_midnight:
  assumes "valid_datetime now" and "time_of_day e = 0"
  shows "timedelta_days e now =
           toordinal e - toordinal now - (if time_of_day now = 0 then 0 else 1)"
proof -
  define t where "t = time_of_day now"
  define k where "k = toordinal e - toordinal now"
  have b: "0 \<le> t" "t < 86400000000"
    using time_of_day_bounds[OF assms(1)] by (simp_all add: t_def)
  have eq: "to_micros e - to_micros now = k * 86400000000 - t"
    by (simp add: to_micros_def assms(2) t_def k_def algebra_simps)
  have td: "timedelta_days e now = (k * 86400000000 - t) div 86400000000"
    by (simp only: timedelta_days_def eq)
  show ?thesis
  proof (cases "t = 0")
    case True
    then have "timedelta_days e now = k" using td by simp
    with True show ?thesis by (simp add: t_def k_def)
  next
    case False
    with b have "0 < t" by simp
    from floor_days[OF this b(2), of k] have "timedelta_days e now = k - 1"
      using td by simp
    with False show ?thesis by (simp add: t_def k_def)
  qed
qed

lemma expiry_gate_parsed:
  assumes "extracted_data ''expiration_date'' = Some (PStr s)"
    and "strptime_mdY s = Some e" and "valid_datetime now"
  shows "expiry_gate now extracted_data =
           (let days = toordinal e - toordinal now - (if time_of_day now = 0 then 0 else 1)
            in if days < 30 then Some days else None)"
proof -
  have "s \<noteq> []" using assms(2) by (rule strptime_nonempty)
  moreover have "timedelta_days e now =
      toordinal e - toordinal now - (if time_of_day now = 0 then 0 else 1)"
    using assms(3) strptime_midnight[OF assms(2)] by (rule timedelta_days_midnight)
  ultimately show ?thesis
    using assms(1,2)
    by (simp add: expiry_gate_def py_get_def days_until_expiry_def Let_def)
qed

lemma check_after_aggregate_gate:
  assumes "passes_aggregate_gate extracted_data"
  shows "check_eligibility now extracted_data =
           (case expiry_gate now extracted_data of
              Some days \<Rightarrow> Inr (expiry_rejection days)
            | None \<Rightarrow> pricing results_init extracted_data)"
  using assms
  by (simp add: passes_aggregate_gate_def check_eligibility_def Let_def expiry_rejection_def
      split: option.splits)

text \<open>
  C1, as the code has it. \<open>datetime.now()\<close> is an instant, not a date, and the day count
  is the number of whole days from that instant to midnight of the expiration date. For a
  record that passes the aggregate gate, with an expiration date that parses and a clock
  showing date D: the date D+29 is rejected, and the reason states 29 days when the clock
  is at midnight and 28 days otherwise, together with the 30-day minimum; the date D+30
  passes the expiry check when the clock is exactly at midnight and is rejected with a
  count of 29 days at any later time of day; the date D+31 always passes; the date D-1
  is rejected (with a count of -1 or -2). A rejection is not eligible.
\<close>

theorem expiry_gate_boundary:
  assumes "passes_aggregate_gate extracted_data"
    and "extracted_data ''expiration_date'' = Some (PStr s)"
    and "strptime_mdY s = Some e"
    and "valid_datetime now"
  shows
    "(toordinal e = toordinal now + 29 \<longrightarrow>
        check_eligibility now extracted_data =
          Inr (expiry_rejection (if time_of_day now = 0 then 29 else 28)))
     \<and> (toordinal e = toordinal now + 30 \<longrightarrow>
        check_eligibility now extracted_data =
          (if time_of_day now = 0 then pricing results_init extracted_data
           else Inr (expiry_rejection 29)))
     \<and> (toordinal e = toordinal now + 31 \<longrightarrow>
        check_eligibility now extracted_data = pricing results_init extracted_data)
     \<and> (toordinal e = toordinal now - 1 \<longrightarrow>
        check_eligibility now extracted_data =
          Inr (expiry_rejection (if time_of_day now = 0 then - 1 else - 2)))
     \<and> \<not> eligible (expiry_rejection days)"
proof -
  have g: "expiry_gate now extracted_data =
      (let days = toordinal e - toordinal now - (if time_of_day now = 0 then 0 else 1)
       in if days < 30 then Some days else None)"
    using assms(2,3,4) by (rule expiry_gate_parsed)
  show ?thesis
    unfolding check_after_aggregate_gate[OF assms(1)] g
    by (simp add: Let_def expiry_rejection_def results_init_def)
qed

text \<open>
  The theorem at 15 July 2025, thirty days after 15 June 2025: accepted by a clock at
  midnight, rejected by a clock at noon.
\<close>

theorem expiry_gate_boundary_witness:
  "passes_aggregate_gate (coi_result (PFloat 2000000) ''07/15/2025'' (PFloat 3500))
   \<and> strptime_mdY ''07/15/2025'' = Some (midnight_of 2025 7 15)
   \<and> valid_datetime june_15_noon \<and> valid_datetime june_15_midnight
   \<and> toordinal (midnight_of 2025 7 15) = toordinal june_15_midnight + 30
   \<and> check_eligibility june_15_midnight
         (coi_result (PFloat 2000000) ''07/15/2025'' (PFloat 3500)) =
       pricing results_init (coi_result (PFloat 2000000) ''07/15/2025'' (PFloat 3500))
   \<and> check_eligibility june_15_noon
         (coi_result (PFloat 2000000) ''07/15/2025'' (PFloat 3500)) =
       Inr (expiry_rejection 29)"
proof -
  let ?d = "coi_result (PFloat 2000000) ''07/15/2025'' (PFloat 3500)"
  have g: "passes_aggregate_gate ?d" by code_simp
  have x: "?d ''expiration_date'' = Some (PStr ''07/15/2025'')" by code_simp
  have p: "strptime_mdY ''07/15/2025'' = Some (midnight_of 2025 7 15)" by code_simp
  have v1: "valid_datetime june_15_noon" by code_simp
  have v2: "valid_datetime june_15_midnight" by code_simp
  have o1: "toordinal (midnight_of 2025 7 15) = toordinal june_15_noon + 30" by code_simp
  have o2: "toordinal (midnight_of 2025 7 15) = toordinal june_15_midnight + 30" by code_simp
  have t1: "time_of_day june_15_noon \<noteq> 0" by code_simp
  have t2: "time_of_day june_15_midnight = 0" by code_simp
  from expiry_gate_boundary[OF g x p v1] o1 t1
  have "check_eligibility june_15_noon ?d = Inr (expiry_rejection 29)"
    by simp
  moreover from expiry_gate_boundary[OF g x p v2] o2 t2
  have "check_eligibility june_15_midnight ?d = pricing results_init ?d"
    by simp
  ultimately show ?thesis using g p v1 v2 o2 by simp
qed

text \<open>
  At noon of 15 June 2025 a policy that expires on 15 July 2025, thirty days after the
  current date, is rejected, with the aggregate at the limit and a premium present.
\<close>

theorem expiry_gate_boundary_counterexample:
  "strptime_mdY ''07/15/2025'' = Some (midnight_of 2025 7 15)
   \<and> toordinal (midnight_of 2025 7 15) = toordinal june_15_noon + 30
   \<and> check_eligibility june_15_noon
         (coi_result (PFloat 2000000) ''07/15/2025'' (PFloat 3500)) =
       Inr \<lparr>eligible = False,
            reason = ''Policy expires in 29 days (minimum 30 days required)'',
            our_price = PInt 0, savings = PInt 0, savings_percent = PInt 0\<rparr>"
  by code_simp

section \<open>Pricing\<close>



lemma pricing_result:
  "py_to_float (current_premium extracted_data) = Some p \<Longrightarrow>
   pricing results extracted_data =
     Inr (results\<lparr>eligible := True,
                   our_price := PFloat (py_round2 (fmul p float_09)),
                   savings := PFloat (py_round2 (fsub p (fmul p float_09))),
                   savings_percent := PFloat 10,
                   reason := ''Eligible for quote - we can match your coverage and save you money!''\<rparr>)"
  by (simp add: pricing_def Let_def)

lemma pricing_error:
  "py_to_float (current_premium extracted_data) = None \<Longrightarrow>
   pricing results extracted_data = Inl TypeError"
  by (simp add: pricing_def)

text \<open>An eligible decision comes from the pricing step.\<close>

lemma eligible_from_pricing:
  assumes "check_eligibility now extracted_data = Inr r" and "eligible r"
  shows "pricing results_init extracted_data = Inr r"
  using assms
  by (auto simp: check_eligibility_def Let_def results_init_def
           split: if_splits sum.splits bool.splits option.splits)

text \<open>
  C2, as the code has it. Whenever the decision is eligible, with \<open>premium\<close> the float
  the pricing step works on (the entry of the record, 3500.0 for \<open>None\<close>, 0 for a missing
  key; an integer converted): \<open>our_price == round(premium * 0.9, 2)\<close>,
  \<open>savings_percent == 10.0\<close>, and \<open>savings == round(premium - premium * 0.9, 2)\<close>, all in
  float arithmetic: the savings are computed from the discounted price before it is
  rounded, not from the rounded \<open>our_price\<close>.
\<close>

theorem pricing_postcondition:
  assumes "check_eligibility now extracted_data = Inr r" and "eligible r"
  shows "\<exists>p. py_to_float (current_premium extracted_data) = Some p
           \<and> our_price r = PFloat (py_round2 (fmul p float_09))
           \<and> savings r = PFloat (py_round2 (fsub p (fmul p float_09)))
           \<and> savings_percent r = PFloat 10"
proof -
  have pr: "pricing results_init extracted_data = Inr r"
    using assms by (rule eligible_from_pricing)
  then obtain p where p: "py_to_float (current_premium extracted_data) = Some p"
    by (cases "py_to_float (current_premium extracted_data)") (simp_all add: pricing_error)
  from pr show ?thesis
    unfolding pricing_result[OF p] using p by auto
qed

text \<open>
  The theorem at a premium of 3500.05 (the float that this literal denotes): a price of
  3150.05 and savings of 350.01.
\<close>

theorem pricing_postcondition_witness:
  "check_eligibility june_15_noon
      (coi_result (PFloat 2000000) ''12/31/2099'' (PFloat (binary64 (70001 / 20)))) =
     Inr \<lparr>eligible = True,
          reason = ''Eligible for quote - we can match your coverage and save you money!'',
          our_price = PFloat (binary64 (63001 / 20)), savings = PFloat (binary64 (35001 / 100)),
          savings_percent = PFloat 10\<rparr>
   \<and> py_to_float (current_premium
         (coi_result (PFloat 2000000) ''12/31/2099'' (PFloat (binary64 (70001 / 20)))))
       = Some (binary64 (70001 / 20))
   \<and> binary64 (63001 / 20) = py_round2 (fmul (binary64 (70001 / 20)) float_09)
   \<and> binary64 (35001 / 100) = py_round2 (fsub (binary64 (70001 / 20)) (fmul (binary64 (70001 / 20)) float_09))"
proof -
  let ?d = "coi_result (PFloat 2000000) ''12/31/2099'' (PFloat (binary64 (70001 / 20)))"
  let ?r = "\<lparr>eligible = True,
          reason = ''Eligible for quote - we can match your coverage and save you money!'',
          our_price = PFloat (binary64 (63001 / 20)), savings = PFloat (binary64 (35001 / 100)),
          savings_percent = PFloat 10\<rparr>"
  have c: "check_eligibility june_15_noon ?d = Inr ?r" by code_simp
  have e: "eligible ?r" by simp
  have n: "py_to_float (current_premium ?d) = Some (binary64 (70001 / 20))" by code_simp
  from pricing_postcondition[OF c e] n c show ?thesis by auto
qed

text \<open>
  A premium of 1000.046: the price is 900.04 and the savings are 100.0, whereas the
  premium less the rounded price, rounded, is 100.01.
\<close>

theorem pricing_postcondition_counterexample:
  "check_eligibility june_15_noon
      (coi_result (PFloat 2000000) ''12/31/2099'' (PFloat (binary64 (500023 / 500)))) =
     Inr \<lparr>eligible = True,
          reason = ''Eligible for quote - we can match your coverage and save you money!'',
          our_price = PFloat (binary64 (22501 / 25)), savings = PFloat 100,
          savings_percent = PFloat 10\<rparr>
   \<and> py_round2 (fsub (binary64 (500023 / 500)) (binary64 (22501 / 25))) = binary64 (10001 / 100)
   \<and> binary64 (10001 / 100) \<noteq> 100"
  by code_simp

lemma py_round2_3150: "py_round2 (fmul 3500 float_09) = 3150"
  by code_simp

lemma py_round2_350: "py_round2 (fsub 3500 (fmul 3500 float_09)) = 350"
  by code_simp

text \<open>
  C5. When the premium of the record is \<open>None\<close>, the pricing step works on 3500.0, and
  every eligible decision has \<open>our_price == 3150.0\<close> and \<open>savings == 350.0\<close>.
\<close>

theorem premium_none_fallback:
  assumes "extracted_data ''premium'' = Some PNone"
  shows "current_premium extracted_data = PFloat 3500
         \<and> (\<forall>r. check_eligibility now extracted_data = Inr r \<and> eligible r \<longrightarrow>
                our_price r = PFloat 3150 \<and> savings r = PFloat 350)"
proof -
  have cp: "current_premium extracted_data = PFloat 3500"
    using assms by (simp add: current_premium_def py_get_def)
  then have p: "py_to_float (current_premium extracted_data) = Some 3500" by simp
  have "our_price r = PFloat 3150 \<and> savings r = PFloat 350"
    if "check_eligibility now extracted_data = Inr r" and "eligible r" for r
  proof -
    have "pricing results_init extracted_data = Inr r"
      using that by (rule eligible_from_pricing)
    then show ?thesis
      unfolding pricing_result[OF p] py_round2_3150 py_round2_350 by auto
  qed
  with cp show ?thesis by blast
qed

text \<open>The theorem at a record whose premium is \<open>None\<close> and whose gates pass.\<close>

theorem premium_none_fallback_witness:
  "coi_result (PFloat 2000000) ''12/31/2099'' PNone ''premium'' = Some PNone
   \<and> current_premium (coi_result (PFloat 2000000) ''12/31/2099'' PNone) = PFloat 3500
   \<and> check_eligibility june_15_noon
         (coi_result (PFloat 2000000) ''12/31/2099'' PNone) =
       Inr \<lparr>eligible = True,
            reason = ''Eligible for quote - we can match your coverage and save you money!'',
            our_price = PFloat 3150, savings = PFloat 350, savings_percent = PFloat 10\<rparr>"
proof -
  let ?d = "coi_result (PFloat 2000000) ''12/31/2099'' PNone"
  have k: "?d ''premium'' = Some PNone" by code_simp
  have g: "passes_aggregate_gate ?d" by code_simp
  have x: "expiry_gate june_15_noon ?d = None" by code_simp
  note f = premium_none_fallback[where extracted_data = "?d"
      and now = june_15_noon, OF k]
  from f have n: "py_to_float (current_premium ?d) = Some 3500" by simp
  from pricing_result[OF n, of results_init]
  obtain r where c: "check_eligibility june_15_noon ?d = Inr r"
    and e: "eligible r" and rest: "reason r = ''Eligible for quote - we can match your coverage and save you money!''"
      "savings_percent r = PFloat 10"
    unfolding check_after_aggregate_gate[OF g] x by (simp add: results_init_def)
  from f c e have "our_price r = PFloat 3150" "savings r = PFloat 350" by blast+
  with e rest have "r = \<lparr>eligible = True,
            reason = ''Eligible for quote - we can match your coverage and save you money!'',
            our_price = PFloat 3150, savings = PFloat 350, savings_percent = PFloat 10\<rparr>"
    by (cases r) simp
  with c f k show ?thesis by simp
qed

section \<open>The aggregate gate\<close>











section \<open>An expiration date that does not parse\<close>



section \<open>Rejections\<close>




section \<open>A missing aggregate\<close>

lemma expiry_gate_upd:
  "expiry_gate now (extracted_data(''general_aggregate'' \<mapsto> v)) = expiry_gate now extracted_data"
  by (simp add: expiry_gate_def py_get_def)

lemma pricing_upd:
  "pricing results (extracted_data(''general_aggregate'' \<mapsto> v)) = pricing results extracted_data"
  by (simp add: pricing_def current_premium_def py_get_def)

text \<open>
  C10. The function returns the reason "Unable to determine General Aggregate limit"
  exactly when the record holds \<open>None\<close> under \<open>general_aggregate\<close>. When the key is
  missing, the record passes the aggregate gate and the outcome is the one for an
  aggregate of 0: that of the expiry check and the pricing.
\<close>

theorem aggregate_none_or_absent:
  "((\<exists>r. check_eligibility now extracted_data = Inr r
          \<and> reason r = ''Unable to determine General Aggregate limit'')
      \<longleftrightarrow> extracted_data ''general_aggregate'' = Some PNone)
   \<and> (extracted_data ''general_aggregate'' = None \<longrightarrow>
         passes_aggregate_gate extracted_data
         \<and> check_eligibility now extracted_data =
             check_eligibility now (extracted_data(''general_aggregate'' \<mapsto> PInt 0))
         \<and> check_eligibility now extracted_data =
             (case expiry_gate now extracted_data of
                Some days \<Rightarrow> Inr (expiry_rejection days)
              | None \<Rightarrow> pricing results_init extracted_data))"
proof (intro conjI impI iffI)
  assume "\<exists>r. check_eligibility now extracted_data = Inr r
          \<and> reason r = ''Unable to determine General Aggregate limit''"
  then show "extracted_data ''general_aggregate'' = Some PNone"
    by (auto simp: check_eligibility_def Let_def results_init_def pricing_def py_get_def
             split: if_splits sum.splits bool.splits option.splits)
next
  assume "extracted_data ''general_aggregate'' = Some PNone"
  then show "\<exists>r. check_eligibility now extracted_data = Inr r
          \<and> reason r = ''Unable to determine General Aggregate limit''"
    by (simp add: check_eligibility_def Let_def py_get_def)
next
  assume a: "extracted_data ''general_aggregate'' = None"
  then show g: "passes_aggregate_gate extracted_data"
    by (simp add: passes_aggregate_gate_def py_get_def py_gt_def)
  have g0: "passes_aggregate_gate (extracted_data(''general_aggregate'' \<mapsto> PInt 0))"
    by (simp add: passes_aggregate_gate_def py_get_def py_gt_def)
  show "check_eligibility now extracted_data =
             check_eligibility now (extracted_data(''general_aggregate'' \<mapsto> PInt 0))"
    unfolding check_after_aggregate_gate[OF g] check_after_aggregate_gate[OF g0]
    by (simp only: expiry_gate_upd pricing_upd)
  show "check_eligibility now extracted_data =
             (case expiry_gate now extracted_data of
                Some days \<Rightarrow> Inr (expiry_rejection days)
              | None \<Rightarrow> pricing results_init extracted_data)"
    using g by (rule check_after_aggregate_gate)
qed

text \<open>
  The theorem at a record without the key (priced like an aggregate of 0) and at a
  record that holds \<open>None\<close> (rejected).
\<close>

theorem aggregate_none_or_absent_witness:
  "[''expiration_date'' \<mapsto> PStr ''12/31/2099'', ''premium'' \<mapsto> PFloat 3500]
      ''general_aggregate'' = None
   \<and> check_eligibility june_15_noon
        [''expiration_date'' \<mapsto> PStr ''12/31/2099'', ''premium'' \<mapsto> PFloat 3500] =
      Inr \<lparr>eligible = True,
           reason = ''Eligible for quote - we can match your coverage and save you money!'',
           our_price = PFloat 3150, savings = PFloat 350, savings_percent = PFloat 10\<rparr>
   \<and> coi_result PNone ''12/31/2099'' (PFloat 3500) ''general_aggregate'' = Some PNone
   \<and> reason (projr (check_eligibility june_15_noon
                       (coi_result PNone ''12/31/2099'' (PFloat 3500)))) =
      ''Unable to determine General Aggregate limit''"
proof -
  let ?m = "[''expiration_date'' \<mapsto> PStr ''12/31/2099'', ''premium'' \<mapsto> PFloat 3500]"
  let ?n = "coi_result PNone ''12/31/2099'' (PFloat 3500)"
  have km: "?m ''general_aggregate'' = None" by simp
  have kn: "?n ''general_aggregate'' = Some PNone" by code_simp
  note tm = aggregate_none_or_absent[of june_15_noon ?m]
  note tn = aggregate_none_or_absent[of june_15_noon ?n]
  have z: "check_eligibility june_15_noon (?m(''general_aggregate'' \<mapsto> PInt 0)) =
      Inr \<lparr>eligible = True,
           reason = ''Eligible for quote - we can match your coverage and save you money!'',
           our_price = PFloat 3150, savings = PFloat 350, savings_percent = PFloat 10\<rparr>"
    by code_simp
  from tm km z have cm: "check_eligibility june_15_noon ?m =
      Inr \<lparr>eligible = True,
           reason = ''Eligible for quote - we can match your coverage and save you money!'',
           our_price = PFloat 3150, savings = PFloat 350, savings_percent = PFloat 10\<rparr>"
    by simp
  from tn kn obtain r where "check_eligibility june_15_noon ?n = Inr r"
    and "reason r = ''Unable to determine General Aggregate limit''" by blast
  then have "reason (projr (check_eligibility june_15_noon ?n)) =
      ''Unable to determine General Aggregate limit''" by simp
  with km cm kn show ?thesis by simp
qed

section \<open>The matcher\<close>

lemma keep_group [simp]: "(case g of None \<Rightarrow> None | Some v \<Rightarrow> Some v) = g"
  by (cases g) simp_all

lemma matches_atom_seq:
  "matches fl (Seq (Atom a) r) s =
     (case s of
        [] \<Rightarrow> []
      | x # xs \<Rightarrow> if atom_ok fl a x
                  then map (\<lambda>(w, g, t). (x # w, g, t)) (matches fl r xs) else [])"
  by (cases s) simp_all

text \<open>A repetition in front of a pattern: every run, then the pattern after it.\<close>

lemma matches_rep_seq:
  "matches fl (Seq (Rep a lo hi gr) r) s =
     concat (map (\<lambda>(w, s1). map (\<lambda>(w2, g2, s2). (w @ w2, g2, s2)) (matches fl r s1))
              (let runs = filter (\<lambda>(w, r). lo \<le> length w) (splits (atom_ok fl a) hi s)
               in case gr of Greedy \<Rightarrow> rev runs | Lazy \<Rightarrow> runs))"
  by (simp add: comp_def case_prod_unfold Let_def cong: option.case_cong)

text \<open>A lazy star in front of a pattern: the pattern here first, then one character on.\<close>

lemma matches_lazy_cons:
  "matches fl (Seq (Rep a 0 None Lazy) r) (c # cs) =
     matches fl r (c # cs) @
     (if atom_ok fl a c
      then map (\<lambda>(w, g, t). (c # w, g, t)) (matches fl (Seq (Rep a 0 None Lazy) r) cs)
      else [])"
  by (simp add: matches_rep_seq map_concat comp_def case_prod_unfold del: matches.simps)

lemma search_here: "matches fl r s = x # xs \<Longrightarrow> search fl r s = Some x"
  by (cases s) simp_all

lemma search_skip:
  "\<forall>k < length pre. matches fl r (drop k (pre @ s)) = [] \<Longrightarrow>
   search fl r (pre @ s) = search fl r s"
proof (induction pre)
  case Nil
  then show ?case by simp
next
  case (Cons c pre)
  from Cons.prems have h0: "matches fl r ((c # pre) @ s) = []" by force
  have "\<forall>k < length pre. matches fl r (drop k (pre @ s)) = []"
  proof (intro allI impI)
    fix k assume "k < length pre"
    then have "Suc k < length (c # pre)" by simp
    with Cons.prems have "matches fl r (drop (Suc k) ((c # pre) @ s)) = []" by blast
    then show "matches fl r (drop k (pre @ s)) = []" by simp
  qed
  with Cons.IH have "search fl r (pre @ s) = search fl r s" by blast
  with h0 show ?case by simp
qed

lemma lit_no_match:
  "ignorecase fl \<Longrightarrow> \<not> ci_prefix p s \<Longrightarrow> matches fl (lit p r) s = []"
proof (induction p s rule: ci_prefix.induct)
  case (1 s)
  then show ?case by simp
next
  case (2 c p)
  then show ?case by simp
next
  case (3 c p x s)
  then show ?case by (auto simp del: matches.simps simp: matches_atom_seq)
qed

lemma lit_match:
  "ignorecase fl \<Longrightarrow> map ascii_lower lbl = map ascii_lower p \<Longrightarrow>
   matches fl (lit p r) (lbl @ rest) = map (\<lambda>(w, g, t). (lbl @ w, g, t)) (matches fl r rest)"
proof (induction p arbitrary: lbl)
  case Nil
  then show ?case by simp
next
  case (Cons c p)
  then obtain x l where l: "lbl = x # l" "ascii_lower x = ascii_lower c"
    "map ascii_lower l = map ascii_lower p"
    by (cases lbl) auto
  from Cons.IH[OF Cons.prems(1) l(3)] Cons.prems(1) l(1,2)
  show ?case
    by (simp del: matches.simps add: matches_atom_seq comp_def case_prod_unfold)
qed

lemma splits_stop:
  "(case post of [] \<Rightarrow> True | c # _ \<Rightarrow> \<not> p c) \<Longrightarrow> splits p hi post = [([], post)]"
  by (cases post) auto

lemma amount_ends_stop:
  "amount_ends post \<Longrightarrow>
   splits (atom_ok fl (OneOf [SDigit, SChar CHR '',''])) hi post = [([], post)]"
  by (rule splits_stop) (auto simp: amount_ends_def split: list.splits)

section \<open>The general aggregate\<close>

lemma dollar_amount_head:
  assumes "amount_ends post"
  shows "\<exists>others. matches fl (Group dollar_amount) (''$2,500,000'' @ post) =
           (''$2,500,000'', Some ''$2,500,000'', post) # others"
  by (simp add: dollar_amount_def amount_ends_stop[OF assms] is_digit_def)

lemma lazy_any_here:
  "matches flag_IS r (c # cs) = x # others \<Longrightarrow>
   \<exists>others'. matches flag_IS (Seq lazy_any r) (c # cs) = x # others'"
  unfolding lazy_any_def matches_lazy_cons by simp

lemma lazy_any_next:
  "matches flag_IS r (c # cs) = [] \<Longrightarrow>
   matches flag_IS (Seq lazy_any r) cs = (w, g, t) # others \<Longrightarrow>
   \<exists>others'. matches flag_IS (Seq lazy_any r) (c # cs) = (c # w, g, t) # others'"
  unfolding lazy_any_def matches_lazy_cons by (simp add: flag_IS_def del: matches.simps)

lemma lazy_dollar_head:
  assumes "amount_ends post"
  shows "\<exists>others. matches flag_IS (Seq lazy_any (Group dollar_amount)) ('' $2,500,000'' @ post) =
           ('' $2,500,000'', Some ''$2,500,000'', post) # others"
proof -
  from dollar_amount_head[OF assms, of flag_IS] obtain others
    where "matches flag_IS (Group dollar_amount) (''$2,500,000'' @ post) =
           (''$2,500,000'', Some ''$2,500,000'', post) # others" ..
  then have "matches flag_IS (Group dollar_amount) (CHR ''$'' # ''2,500,000'' @ post) =
           (''$2,500,000'', Some ''$2,500,000'', post) # others"
    by (simp only: append_Cons)
  from lazy_any_here[OF this] obtain others1
    where m1: "matches flag_IS (Seq lazy_any (Group dollar_amount)) (CHR ''$'' # ''2,500,000'' @ post) =
           (''$2,500,000'', Some ''$2,500,000'', post) # others1" ..
  have z: "matches flag_IS (Group dollar_amount) (CHR '' '' # CHR ''$'' # ''2,500,000'' @ post) = []"
    by (simp add: dollar_amount_def flag_IS_def ascii_lower_def)
  from lazy_any_next[OF z m1] show ?thesis
    by (simp only: append_Cons)
qed

lemma ga_search:
  assumes "map ascii_lower lbl = ''general aggregate''"
    and "\<not> starts_before ''GENERAL AGGREGATE'' (pre @ lbl @ '' $2,500,000'' @ post) (length pre)"
    and "amount_ends post"
  shows "search flag_IS ga_pattern (pre @ lbl @ '' $2,500,000'' @ post) =
           Some (lbl @ '' $2,500,000'', Some ''$2,500,000'', post)"
proof -
  let ?s = "lbl @ '' $2,500,000'' @ post"
  have i: "ignorecase flag_IS" by (simp add: flag_IS_def)
  have l: "map ascii_lower lbl = map ascii_lower ''GENERAL AGGREGATE''"
    using assms(1) by (simp add: ascii_lower_def)
  from lazy_dollar_head[OF assms(3)] obtain others
    where "matches flag_IS (Seq lazy_any (Group dollar_amount)) ('' $2,500,000'' @ post) =
           ('' $2,500,000'', Some ''$2,500,000'', post) # others" ..
  then have "matches flag_IS ga_pattern ?s =
      (lbl @ '' $2,500,000'', Some ''$2,500,000'', post)
        # map (\<lambda>(w, g, t). (lbl @ w, g, t)) others"
    unfolding ga_pattern_def lit_match[OF i l] by (simp only: list.map case_prod_conv)
  then have here: "search flag_IS ga_pattern ?s =
      Some (lbl @ '' $2,500,000'', Some ''$2,500,000'', post)"
    by (rule search_here)
  have "\<forall>k < length pre. matches flag_IS ga_pattern (drop k (pre @ ?s)) = []"
    using assms(2) unfolding ga_pattern_def starts_before_def
    by (simp add: lit_no_match[OF i] list_ex_iff del: lit.simps matches.simps)
  then have "search flag_IS ga_pattern (pre @ ?s) = search flag_IS ga_pattern ?s"
    by (rule search_skip)
  with here show ?thesis by simp
qed

text \<open>A pattern with a group reports the group in every match.\<close>

lemma matches_group:
  "has_group r \<Longrightarrow> (w, g, t) \<in> set (matches fl r s) \<Longrightarrow> g \<noteq> None"
proof (induction r arbitrary: w g t s)
  case (Seq r1 r2)
  from Seq.prems(2) obtain w1 g1 s1 w2 g2
    where a: "(w1, g1, s1) \<in> set (matches fl r1 s)" "(w2, g2, t) \<in> set (matches fl r2 s1)"
      and g: "g = (case g2 of None \<Rightarrow> g1 | Some v \<Rightarrow> Some v)"
    by auto
  show ?case
  proof (cases "has_group r2")
    case True
    from Seq.IH(2)[OF True a(2)] g show ?thesis by auto
  next
    case False
    with Seq.prems(1) have "has_group r1" by simp
    from Seq.IH(1)[OF this a(1)] g show ?thesis by (cases g2) auto
  qed
qed auto

lemma search_in_matches:
  "search fl r s = Some x \<Longrightarrow> \<exists>t. x \<in> set (matches fl r t)"
proof (induction s)
  case Nil
  then show ?case by (auto split: list.splits intro: exI[of _ "[]"])
next
  case (Cons c cs)
  show ?case
  proof (cases "matches fl r (c # cs)")
    case Nil
    with Cons show ?thesis by simp
  next
    case (Cons y ys)
    with Cons.prems have "x = y" by simp
    with Cons show ?thesis by (intro exI[of _ "c # cs"]) simp
  qed
qed

lemma search_group:
  "has_group r \<Longrightarrow> search fl r s = Some mt \<Longrightarrow> \<exists>v. group1 mt = Inr v"
proof -
  assume h: "has_group r" and s: "search fl r s = Some mt"
  obtain w g t where mt: "mt = (w, g, t)" by (cases mt) auto
  from search_in_matches[OF s] obtain u where "(w, g, t) \<in> set (matches fl r u)"
    unfolding mt by blast
  from matches_group[OF h this] show ?thesis
    by (auto simp: group1_def mt)
qed

lemma premium_cascade_no_error:
  "list_all has_group ps \<Longrightarrow> \<exists>v. premium_cascade ps text = Inr v"
proof (induction ps)
  case Nil
  then show ?case by simp
next
  case (Cons p ps)
  then have hp: "has_group p" and ih: "\<exists>v. premium_cascade ps text = Inr v" by simp_all
  show ?case
  proof (cases "search flag_I p text")
    case None
    with ih show ?thesis by simp
  next
    case (Some mt)
    from search_group[OF hp Some] obtain v where "group1 mt = Inr v" ..
    with Some ih show ?thesis by (simp split: sum.splits)
  qed
qed

lemma premium_patterns_groups: "list_all has_group premium_patterns"
  by (simp add: premium_patterns_def dollar_decimal_def lazy_any_def)

lemma extract_premium_frame:
  "\<exists>d'. extract_premium text d = Inr d' \<and> (\<forall>k. k \<noteq> ''premium'' \<longrightarrow> d' k = d k)"
proof -
  from premium_cascade_no_error[OF premium_patterns_groups]
  obtain v where "premium_cascade premium_patterns text = Inr v" ..
  then show ?thesis
    by (auto simp: extract_premium_def split: option.splits)
qed

lemma extract_expiration_date_frame:
  "k \<noteq> ''expiration_date'' \<Longrightarrow> extract_expiration_date text d k = d k"
  by (simp add: extract_expiration_date_def split: option.splits)

lemma float_2500000: "py_float (strip_currency ''$2,500,000'') = Inr 2500000"
  by code_simp

text \<open>
  C6, as the code has it. The search takes the first place where the label stands and,
  from there, the first dollar sign that a digit or a comma follows, with all the digits
  and commas after it. So the extracted general aggregate is 2500000.0 for every text in
  which "GENERAL AGGREGATE $2,500,000" occurs, in any letter case, such that the label
  does not occur before that place and no digit or comma goes on after the amount. The
  same holds for the dictionary that \<open>extract_coi_data\<close> returns for pages with this
  text.
\<close>

theorem general_aggregate_extraction:
  assumes "text = pre @ lbl @ '' $2,500,000'' @ post"
    and "map ascii_lower lbl = ''general aggregate''"
    and "\<not> starts_before ''GENERAL AGGREGATE'' text (length pre)"
    and "amount_ends post"
  shows "(\<exists>d'. extract_fields text d = Inr d' \<and> d' ''general_aggregate'' = Some (PFloat 2500000))
         \<and> (\<forall>pages. concat (map (\<lambda>page. page @ [CHR 0x0A]) pages) = text \<longrightarrow>
               extract_coi_data (Pages pages) ''general_aggregate'' = Some (PFloat 2500000))"
proof -
  have s: "search flag_IS ga_pattern text =
      Some (lbl @ '' $2,500,000'', Some ''$2,500,000'', post)"
    using assms(2,3,4) unfolding assms(1) by (rule ga_search)
  have ga: "extract_general_aggregate text d = Inr (d(''general_aggregate'' \<mapsto> PFloat 2500000))" for d
    by (simp add: extract_general_aggregate_def s group1_def float_2500000)
  have fields: "\<exists>d'. extract_fields text d = Inr d' \<and> d' ''general_aggregate'' = Some (PFloat 2500000)" for d
  proof -
    let ?d1 = "extract_expiration_date text (d(''general_aggregate'' \<mapsto> PFloat 2500000))"
    from extract_premium_frame[of "text" "?d1"] obtain d'
      where d': "extract_premium text ?d1 = Inr d'" "\<forall>k. k \<noteq> ''premium'' \<longrightarrow> d' k = ?d1 k"
      by blast
    then have "d' ''general_aggregate'' = Some (PFloat 2500000)"
      by (simp add: extract_expiration_date_frame)
    with d'(1) show ?thesis by (simp add: extract_fields_def ga)
  qed
  have "extract_coi_data (Pages pages) ''general_aggregate'' = Some (PFloat 2500000)"
    if "concat (map (\<lambda>page. page @ [CHR 0x0A]) pages) = text" for pages
  proof -
    from fields[of sample_data] obtain d'
      where "extract_fields text sample_data = Inr d'" "d' ''general_aggregate'' = Some (PFloat 2500000)"
      by blast
    then show ?thesis by (simp add: extract_coi_data_def that)
  qed
  with fields show ?thesis by blast
qed

text \<open>The theorem at a page that holds the label in lower case.\<close>

theorem general_aggregate_extraction_witness:
  "map ascii_lower ''general aggregate'' = ''general aggregate''
   \<and> \<not> starts_before ''GENERAL AGGREGATE''
         (''Limits: '' @ ''general aggregate'' @ '' $2,500,000'' @ '' per year'' @ [CHR 0x0A])
         (length ''Limits: '')
   \<and> amount_ends ('' per year'' @ [CHR 0x0A])
   \<and> extract_coi_data (Pages [''Limits: general aggregate $2,500,000 per year''])
         ''general_aggregate'' = Some (PFloat 2500000)"
proof -
  let ?text = "''Limits: '' @ ''general aggregate'' @ '' $2,500,000'' @ '' per year'' @ [CHR 0x0A]"
  have a: "map ascii_lower ''general aggregate'' = ''general aggregate''" by code_simp
  have b: "\<not> starts_before ''GENERAL AGGREGATE'' ?text (length ''Limits: '')" by code_simp
  have c: "amount_ends ('' per year'' @ [CHR 0x0A])" by code_simp
  have p: "concat (map (\<lambda>page. page @ [CHR 0x0A])
      [''Limits: general aggregate $2,500,000 per year'']) = ?text" by simp
  from general_aggregate_extraction[OF refl a b c, of sample_data] p
  have "extract_coi_data (Pages [''Limits: general aggregate $2,500,000 per year''])
         ''general_aggregate'' = Some (PFloat 2500000)" by blast
  with a b c show ?thesis by blast
qed

text \<open>
  Two pages that hold "GENERAL AGGREGATE $2,500,000": in the first the amount goes on,
  in the second the label stands earlier with another amount.
\<close>

theorem general_aggregate_extraction_counterexample:
  "extract_coi_data (Pages [''GENERAL AGGREGATE $2,500,000,000'']) ''general_aggregate''
     = Some (PFloat 2500000000)
   \<and> extract_coi_data (Pages [''General Aggregate $1,000,000 GENERAL AGGREGATE $2,500,000''])
       ''general_aggregate'' = Some (PFloat 1000000)"
  by code_simp

section \<open>The expiration cascade\<close>

lemma lit_exact:
  "\<not> ignorecase fl \<Longrightarrow>
   matches fl (lit p Eps) s =
     (if take (length p) s = p then [(p, None, drop (length p) s)] else [])"
proof (induction p arbitrary: s)
  case Nil
  then show ?case by simp
next
  case (Cons c p)
  show ?case
  proof (cases s)
    case Nil
    then show ?thesis by simp
  next
    case (Cons x xs)
    with Cons.IH[OF Cons.prems, of xs] Cons.prems show ?thesis
      by (auto simp del: matches.simps simp: matches_atom_seq)
  qed
qed

lemma search_literal:
  assumes "\<not> ignorecase fl"
  shows "\<exists>rest. search fl (lit p Eps) (pre @ p @ post) = Some (p, None, rest)"
proof (induction pre)
  case Nil
  have "matches fl (lit p Eps) (p @ post) = [(p, None, post)]"
    by (simp add: lit_exact[OF assms] del: matches.simps)
  then show ?case by (simp add: search_here)
next
  case (Cons c pre)
  show ?case
  proof (cases "matches fl (lit p Eps) ((c # pre) @ p @ post)")
    case Nil
    with Cons show ?thesis by simp
  next
    case (Cons y ys)
    then have "y = (p, None, drop (length p) ((c # pre) @ p @ post))"
      by (simp add: lit_exact[OF assms] del: matches.simps split: if_splits)
    with search_here[OF Cons] show ?thesis by blast
  qed
qed

text \<open>
  The expiration cascade where it is reached: when neither pattern with \<open>EXP\<close> matches
  and the text holds "01/01/2026", that literal is the date, whatever stands before it.
\<close>

lemma exp_cascade_literal:
  assumes "search no_flags (hd exp_patterns) text = None"
    and "search no_flags (hd (tl exp_patterns)) text = None"
    and "text = pre @ ''01/01/2026'' @ post"
  shows "exp_cascade exp_patterns text = Some ''01/01/2026''"
proof -
  have "\<not> ignorecase no_flags" by (simp add: no_flags_def)
  from search_literal[OF this, of "''01/01/2026''" pre post]
  obtain rest where "search no_flags (lit ''01/01/2026'' Eps) text = Some (''01/01/2026'', None, rest)"
    unfolding assms(3) ..
  with assms(1,2) show ?thesis
    by (simp add: exp_patterns_def del: lit.simps)
qed

lemma expiration_literal_when_reached:
  assumes "extract_general_aggregate text d = Inr d1"
    and "search no_flags (hd exp_patterns) text = None"
    and "search no_flags (hd (tl exp_patterns)) text = None"
    and "text = pre @ ''01/01/2026'' @ post"
  shows "\<exists>d'. extract_fields text d = Inr d'
           \<and> d' ''expiration_date'' = Some (PStr ''01/01/2026'')"
proof -
  let ?d2 = "extract_expiration_date text d1"
  have e: "?d2 ''expiration_date'' = Some (PStr ''01/01/2026'')"
    by (simp add: extract_expiration_date_def exp_cascade_literal[OF assms(2,3,4)])
  from extract_premium_frame[of "text" "?d2"] obtain d'
    where "extract_premium text ?d2 = Inr d'" "\<forall>k. k \<noteq> ''premium'' \<longrightarrow> d' k = ?d2 k"
    by blast
  with e assms(1) show ?thesis by (simp add: extract_fields_def)
qed

section \<open>The premium sweep\<close>

lemma first_simps [simp]: "first [] = None" "first (x # xs) = Some x"
  by (simp_all add: first_def)

lemma first_append: "first (xs @ ys) = (case first xs of None \<Rightarrow> first ys | Some x \<Rightarrow> Some x)"
  by (cases xs) simp_all

lemma first_map: "first (map f xs) = map_option f (first xs)"
  by (cases xs) simp_all

lemma first_None: "first xs = None \<longleftrightarrow> xs = []"
  by (cases xs) simp_all

lemma splits_last:
  "\<exists>xs. splits p None s = xs @ [(takeWhile p s, dropWhile p s)]
        \<and> (\<forall>(w, r) \<in> set xs. length w < length (takeWhile p s))"
proof (induction s)
  case Nil
  show ?case by simp
next
  case (Cons c cs)
  show ?case
  proof (cases "p c")
    case False
    then show ?thesis by simp
  next
    case True
    from Cons obtain xs where xs: "splits p None cs = xs @ [(takeWhile p cs, dropWhile p cs)]"
      "\<forall>(w, r) \<in> set xs. length w < length (takeWhile p cs)" by blast
    let ?ys = "([], c # cs) # map (\<lambda>(w, r). (c # w, r)) xs"
    have "splits p None (c # cs) = ?ys @ [(takeWhile p (c # cs), dropWhile p (c # cs))]"
      using True xs(1) by simp
    moreover have "\<forall>(w, r) \<in> set ?ys. length w < length (takeWhile p (c # cs))"
      using True xs(2) by auto
    ultimately show ?thesis by blast
  qed
qed

lemma greedy_runs_some:
  assumes "lo \<le> length (takeWhile p s)"
  shows "\<exists>rest. rev (filter (\<lambda>(w, r). lo \<le> length w) (splits p None s)) =
           (takeWhile p s, dropWhile p s) # rest"
proof -
  from splits_last[of p s] obtain xs
    where "splits p None s = xs @ [(takeWhile p s, dropWhile p s)]" by blast
  with assms show ?thesis by simp
qed

lemma greedy_runs_none:
  assumes "length (takeWhile p s) < lo"
  shows "filter (\<lambda>(w, r). lo \<le> length w) (splits p None s) = []"
proof -
  from splits_last[of p s] obtain xs
    where xs: "splits p None s = xs @ [(takeWhile p s, dropWhile p s)]"
      "\<forall>(w, r) \<in> set xs. length w < length (takeWhile p s)" by blast
  have "filter (\<lambda>(w, r). lo \<le> length w) xs = []"
    using xs(2) assms by (auto simp: filter_empty_conv)
  with assms show ?thesis by (simp add: xs(1))
qed

lemma greedy_seq_first:
  assumes "lo \<le> length (takeWhile (atom_ok fl a) s)"
    and "first (matches fl r (dropWhile (atom_ok fl a) s)) = Some (w2, g2, s2)"
  shows "first (matches fl (Seq (Rep a lo None Greedy) r) s) =
           Some (takeWhile (atom_ok fl a) s @ w2, g2, s2)"
proof -
  from greedy_runs_some[OF assms(1)] obtain rest
    where "rev (filter (\<lambda>(w, r). lo \<le> length w) (splits (atom_ok fl a) None s)) =
           (takeWhile (atom_ok fl a) s, dropWhile (atom_ok fl a) s) # rest" ..
  then show ?thesis
    using assms(2)
    by (simp add: matches_rep_seq first_append first_map del: matches.simps)
qed

lemma greedy_seq_none:
  assumes "length (takeWhile (atom_ok fl a) s) < lo"
  shows "matches fl (Seq (Rep a lo None Greedy) r) s = []"
  using greedy_runs_none[OF assms]
  by (simp add: matches_rep_seq del: matches.simps)

lemma greedy_last_first:
  "first (matches fl (Rep a 0 None Greedy) s) =
     Some (takeWhile (atom_ok fl a) s, None, dropWhile (atom_ok fl a) s)"
proof -
  have "0 \<le> length (takeWhile (atom_ok fl a) s)" by simp
  from greedy_runs_some[OF this] obtain rest
    where "rev (filter (\<lambda>(w, r). 0 \<le> length w) (splits (atom_ok fl a) None s)) =
           (takeWhile (atom_ok fl a) s, dropWhile (atom_ok fl a) s) # rest" ..
  then show ?thesis by simp
qed

lemma splits_zero: "splits p (Some 0) s = [([], s)]"
  by (cases s) simp_all

lemma optional_seq_first:
  "first (matches fl (Seq (Rep a 0 (Some 1) Greedy) r) s) =
     (case s of
        [] \<Rightarrow> first (matches fl r [])
      | c # cs \<Rightarrow>
          if atom_ok fl a c
          then (case first (matches fl r cs) of
                  None \<Rightarrow> first (matches fl r (c # cs))
                | Some (w2, g2, s2) \<Rightarrow> Some (c # w2, g2, s2))
          else first (matches fl r (c # cs)))"
  by (cases s)
     (auto simp: matches_rep_seq splits_zero first_append first_map
           simp del: matches.simps split: option.splits)

lemma amount_char_ok: "atom_ok no_flags (OneOf [SDigit, SChar CHR '','']) = amount_char"
  by (rule ext) (auto simp: amount_char_def)

lemma digit_ok: "atom_ok fl Digit = is_digit"
  by (rule ext) simp

lemma fraction_first:
  "first (matches no_flags (Seq (Rep (Lit CHR ''.'') 0 (Some 1) Greedy) (Rep Digit 0 None Greedy)) r1) =
     (let dot = (case r1 of [] \<Rightarrow> [] | d # _ \<Rightarrow> if d = CHR ''.'' then [d] else []);
          r2 = drop (length dot) r1
      in Some (dot @ takeWhile is_digit r2, None, dropWhile is_digit r2))"
  unfolding optional_seq_first greedy_last_first digit_ok
  by (cases r1) (simp_all add: no_flags_def)

lemma dollar_decimal_first:
  "first (matches no_flags (Group dollar_decimal) s) =
     map_option (\<lambda>(tok, rest). (tok, Some tok, rest)) (take_amount s)"
proof (cases s)
  case Nil
  then show ?thesis by (simp add: dollar_decimal_def take_amount_def)
next
  case (Cons c cs)
  let ?tail = "Seq (Rep (Lit CHR ''.'') 0 (Some 1) Greedy) (Rep Digit 0 None Greedy)"
  let ?amount = "Seq (Rep (OneOf [SDigit, SChar CHR '','']) 1 None Greedy) ?tail"
  define found where "found = matches no_flags ?amount cs"
  have "matches no_flags (Group dollar_decimal) (c # cs) =
      (if c = CHR ''$''
       then map (\<lambda>(w, g, s'). (w, Some w, s'))
              (map (\<lambda>(w, g, t). (c # w, g, t)) (matches no_flags ?amount cs))
       else [])"
    unfolding dollar_decimal_def matches.simps(5) matches_atom_seq
    by (auto simp: no_flags_def)
  then have unfold: "first (matches no_flags (Group dollar_decimal) (c # cs)) =
      (if c = CHR ''$''
       then map_option (\<lambda>(w, g, t). (c # w, Some (c # w), t)) (first found)
       else None)"
    by (simp add: found_def first_map option.map_comp comp_def case_prod_unfold
          del: matches.simps)
  show ?thesis
  proof (cases "takeWhile amount_char cs = []")
    case True
    then have "found = []"
      unfolding found_def by (intro greedy_seq_none) (simp add: amount_char_ok)
    with True show ?thesis
      unfolding Cons unfold by (simp add: take_amount_def)
  next
    case False
    then have lo: "1 \<le> length (takeWhile (atom_ok no_flags (OneOf [SDigit, SChar CHR '','']))  cs)"
      by (cases "takeWhile amount_char cs") (simp_all add: amount_char_ok)
    define r1 where "r1 = dropWhile amount_char cs"
    define dot where "dot = (case r1 of [] \<Rightarrow> [] | d # _ \<Rightarrow> if d = CHR ''.'' then [d] else [])"
    define r2 where "r2 = drop (length dot) r1"
    have f: "first (matches no_flags ?tail
                (dropWhile (atom_ok no_flags (OneOf [SDigit, SChar CHR '',''])) cs)) =
        Some (dot @ takeWhile is_digit r2, None, dropWhile is_digit r2)"
      unfolding fraction_first amount_char_ok by (simp add: Let_def r1_def dot_def r2_def)
    from greedy_seq_first[OF lo f]
    have "first found =
        Some (takeWhile amount_char cs @ dot @ takeWhile is_digit r2, None, dropWhile is_digit r2)"
      by (simp only: found_def amount_char_ok)
    with False show ?thesis
      unfolding Cons unfold
      by (simp add: take_amount_def Let_def r1_def dot_def r2_def)
  qed
qed

lemma take_amount_split:
  assumes "take_amount s = Some (tok, rest)"
  shows "s = tok @ rest" and "tok \<noteq> []"
proof -
  from assms obtain c cs where s: "s = c # cs" and c: "c = CHR ''$''"
    by (cases s) (auto simp: take_amount_def split: if_splits)
  define r1 where "r1 = dropWhile amount_char cs"
  define dot where "dot = (case r1 of [] \<Rightarrow> [] | d # _ \<Rightarrow> if d = CHR ''.'' then [d] else [])"
  define r2 where "r2 = drop (length dot) r1"
  from assms have tok: "tok = c # takeWhile amount_char cs @ dot @ takeWhile is_digit r2"
    and rest: "rest = dropWhile is_digit r2"
    by (auto simp: take_amount_def s Let_def r1_def dot_def r2_def split: if_splits)
  have "dot @ r2 = r1"
    by (cases r1) (auto simp: dot_def r2_def)
  then have "takeWhile amount_char cs @ dot @ r2 = cs"
    by (simp add: r1_def)
  moreover have "takeWhile is_digit r2 @ dropWhile is_digit r2 = r2" by simp
  ultimately have "takeWhile amount_char cs @ dot @ takeWhile is_digit r2 @ dropWhile is_digit r2 = cs"
    by simp
  then show "s = tok @ rest" by (simp add: s tok rest)
  show "tok \<noteq> []" by (simp add: tok)
qed

text \<open>\<open>findall\<close> with the pattern of the sweep lists the currency-shaped tokens.\<close>

lemma findall_tokens: "findall no_flags premium_pattern s = currency_tokens s"
proof (induction s rule: currency_tokens.induct)
  case (1 s)
  show ?case
  proof (cases "take_amount s")
    case None
    then have "matches no_flags (Group dollar_decimal) s = []"
      using dollar_decimal_first[of s] by (simp add: first_None)
    then have m': "matches no_flags premium_pattern s = []"
      by (simp only: premium_pattern_def)
    show ?thesis
      using None "1.IH"(1)[OF None]
      by (subst findall.simps, subst currency_tokens.simps)
         (simp add: m' del: matches.simps split: list.splits)
  next
    case (Some a)
    obtain tok rest where a: "a = (tok, rest)" by (cases a) auto
    from take_amount_split[OF Some[unfolded a]] have sp: "s = tok @ rest" "tok \<noteq> []" .
    from dollar_decimal_first[of s] Some a
    obtain others where m: "matches no_flags (Group dollar_decimal) s = (tok, Some tok, rest) # others"
      by (cases "matches no_flags (Group dollar_decimal) s") auto
    have len: "max (Suc 0) (length tok) = length tok" using sp(2) by (cases tok) simp_all
    have ne: "s \<noteq> []" using sp by simp
    from "1.IH"(2)[OF Some[unfolded a] refl]
    have ih: "findall no_flags premium_pattern (drop (length tok) s) =
        currency_tokens (drop (length tok) s)" .
    have m': "matches no_flags premium_pattern s = (tok, Some tok, rest) # others"
      using m by (simp only: premium_pattern_def)
    show ?thesis
      by (subst findall.simps, subst currency_tokens.simps)
         (simp add: m' Some a len ne ih del: matches.simps)
  qed
qed

lemma premium_sweep_spec: "premium_sweep toks = first_in_range toks"
  by (induction toks) (auto simp: first_in_range_def List.map_filter_simps split: sum.splits)

lemma extract_general_aggregate_frame:
  "extract_general_aggregate text d = Inr d1 \<Longrightarrow> k \<noteq> ''general_aggregate'' \<Longrightarrow> d1 k = d k"
  by (auto simp: extract_general_aggregate_def split: option.splits sum.splits)

text \<open>
  The premium step where it is reached: when no pattern of the cascade gives a float,
  the premium becomes the value of the first currency-shaped token that lies in
  [1000, 10000], and stays as it was when there is none.
\<close>

lemma extract_premium_sweep:
  assumes "premium_cascade premium_patterns text = Inr None"
  shows "extract_premium text d =
           Inr (case first_in_range (currency_tokens text) of
                  None \<Rightarrow> d
                | Some v \<Rightarrow> d(''premium'' \<mapsto> PFloat v))"
  using assms
  by (simp add: extract_premium_def findall_tokens premium_sweep_spec split: option.splits)

lemma premium_sweep_when_reached:
  assumes "extract_general_aggregate text d = Inr d1"
    and "premium_cascade premium_patterns text = Inr None"
  shows "\<exists>d'. extract_fields text d = Inr d'
           \<and> d' ''premium'' =
               (case first_in_range (currency_tokens text) of
                  None \<Rightarrow> d ''premium''
                | Some v \<Rightarrow> Some (PFloat v))"
proof -
  let ?d2 = "extract_expiration_date text d1"
  have "?d2 ''premium'' = d ''premium''"
    using extract_general_aggregate_frame[OF assms(1), of "''premium''"]
    by (simp add: extract_expiration_date_frame)
  then show ?thesis
    by (simp add: extract_fields_def assms(1) extract_premium_sweep[OF assms(2)]
          split: option.splits)
qed

section \<open>An amount without a digit after the aggregate label\<close>

text \<open>
  The conversion of the premium to a float is guarded (\<open>try: ... except: continue\<close>), that
  of the general aggregate is not. \<open>[\d,]+\<close> also matches commas alone, the stripped
  text is then empty, \<open>float('')\<close> raises \<open>ValueError\<close>, and the handler around the whole
  extraction returns the preset values: neither the expiration date nor the premium is
  looked for. Wherever the general-aggregate step returns, the cascade and the sweep do
  what \<open>expiration_literal_when_reached\<close> and \<open>premium_sweep_when_reached\<close> state.
\<close>

text \<open>
  C4 at such a page. Neither pattern with \<open>EXP\<close> matches and the text holds
  "01/01/2026", yet the expiration date returned is the preset "08/08/2026".
\<close>

theorem expiration_literal_lost:
  "concat (map (\<lambda>page. page @ [CHR 0x0A]) [''GENERAL AGGREGATE $, 01/01/2026''])
     = ''GENERAL AGGREGATE $, '' @ ''01/01/2026'' @ [CHR 0x0A]
   \<and> search no_flags (hd exp_patterns) (''GENERAL AGGREGATE $, 01/01/2026'' @ [CHR 0x0A]) = None
   \<and> search no_flags (hd (tl exp_patterns)) (''GENERAL AGGREGATE $, 01/01/2026'' @ [CHR 0x0A]) = None
   \<and> isl (extract_general_aggregate (''GENERAL AGGREGATE $, 01/01/2026'' @ [CHR 0x0A]) sample_data)
   \<and> projl (extract_general_aggregate (''GENERAL AGGREGATE $, 01/01/2026'' @ [CHR 0x0A]) sample_data)
       = ValueError
   \<and> extract_coi_data (Pages [''GENERAL AGGREGATE $, 01/01/2026'']) ''expiration_date''
       = Some (PStr ''08/08/2026'')
   \<and> extract_coi_data (Pages [''GENERAL AGGREGATE $, 01/01/2026'']) ''extraction_success''
       = Some (PBool False)"
  by code_simp

text \<open>
  C7 at such a page. No premium pattern matches, the sweep would meet the tokens "$,"
  and "$5,000" and take 5000, yet the premium returned is the preset 3.0.
\<close>

theorem premium_sweep_lost:
  "premium_cascade premium_patterns (''GENERAL AGGREGATE $, $5,000'' @ [CHR 0x0A]) = Inr None
   \<and> findall no_flags premium_pattern (''GENERAL AGGREGATE $, $5,000'' @ [CHR 0x0A])
       = [''$,'', ''$5,000'']
   \<and> premium_sweep [''$,'', ''$5,000''] = Some 5000
   \<and> isl (extract_general_aggregate (''GENERAL AGGREGATE $, $5,000'' @ [CHR 0x0A]) sample_data)
   \<and> projl (extract_general_aggregate (''GENERAL AGGREGATE $, $5,000'' @ [CHR 0x0A]) sample_data)
       = ValueError
   \<and> extract_coi_data (Pages [''GENERAL AGGREGATE $, $5,000'']) ''premium'' = Some (PFloat 3)
   \<and> extract_coi_data (Pages [''GENERAL AGGREGATE $, $5,000'']) ''extraction_success''
       = Some (PBool False)"
  by code_simp

end
